theory Spec2Isabelle
  imports Complex_Main
begin

section \<open>File processing: \<open>app/core/file_processor.py\<close>\<close>

text \<open>
  \<open>ModalityDetector\<close> classifies a path by its extension.  The extension is
  \<open>Path(file_path).suffix.lower()\<close>: the part of the final path component from its last
  dot on, empty when that component has no dot, starts with its only dot, or ends with a dot.
  Paths are byte strings here, taken in the normal form that \<open>Path\<close> gives them (no
  trailing slash); \<open>lower\<close> is modelled on the ASCII letters.
\<close>

definition path_name :: "string \<Rightarrow> string" where
  "path_name p = rev (takeWhile (\<lambda>c. c \<noteq> CHR ''/'') (rev p))"

definition suffix :: "string \<Rightarrow> string" where
  "suffix p =
     (let n = path_name p;
          r = takeWhile (\<lambda>c. c \<noteq> CHR ''.'') (rev n)
      in if length r = length n \<or> r = [] \<or> Suc (length r) = length n
         then []
         else CHR ''.'' # rev r)"

definition lower_char :: "char \<Rightarrow> char" where
  "lower_char c =
     (case map_of (zip ''ABCDEFGHIJKLMNOPQRSTUVWXYZ'' ''abcdefghijklmnopqrstuvwxyz'') c of
        None \<Rightarrow> c
      | Some d \<Rightarrow> d)"

definition lower :: "string \<Rightarrow> string" where
  "lower s = map lower_char s"

definition AUDIO_EXTENSIONS :: "string list" where
  "AUDIO_EXTENSIONS =
     [''.mp3'', ''.wav'', ''.flac'', ''.aac'', ''.ogg'', ''.m4a'', ''.wma'', ''.opus'']"

definition VIDEO_EXTENSIONS :: "string list" where
  "VIDEO_EXTENSIONS =
     [''.mp4'', ''.avi'', ''.mov'', ''.mkv'', ''.webm'', ''.flv'', ''.wmv'', ''.m4v'']"

text \<open>\<open>ModalityDetector.detect\<close>: \<open>'audio'\<close>, \<open>'video'\<close> or \<open>None\<close>.\<close>

definition detect :: "string \<Rightarrow> string option" where
  "detect file_path =
     (let ext = lower (suffix file_path)
      in if ext \<in> set AUDIO_EXTENSIONS then Some ''audio''
         else if ext \<in> set VIDEO_EXTENSIONS then Some ''video''
         else None)"

definition is_supported :: "string \<Rightarrow> bool" where
  "is_supported file_path = (detect file_path \<noteq> None)"


section \<open>The event debouncer: \<open>app/monitoring/event_handler.py\<close>\<close>

text \<open>
  \<open>MultimodalEventHandler\<close> keeps a cooldown, the dictionary \<open>last_event_time\<close> and a
  reference to the shared queue.  The clock \<open>time.time()\<close> is an input of the model: every
  call of \<open>_should_process\<close> receives the reading it would have taken.  Clock readings and
  the cooldown are Python floats; they are modelled as real numbers, so rounding of the
  subtraction is not represented.  Scheduling \<open>queue.put\<close> on the event loop is modelled as
  appending to the queue.
\<close>

datatype action = Create | Modify | Delete

record file_event =
  ev_action :: action
  ev_folder_id :: nat
  ev_path :: string

record handler =
  h_folder_id :: nat
  cooldown_seconds :: real
  last_event_time :: "string \<rightharpoonup> real"
  queue :: "file_event list"

text \<open>A raw watchdog event: \<open>dest_path\<close> is read by \<open>on_moved\<close> only.\<close>

record fs_event =
  is_directory :: bool
  src_path :: string
  dest_path :: string

definition MultimodalEventHandler :: "nat \<Rightarrow> real \<Rightarrow> handler" where
  "MultimodalEventHandler fid cd =
     \<lparr>h_folder_id = fid, cooldown_seconds = cd, last_event_time = Map.empty, queue = []\<rparr>"

text \<open>\<open>self.last_event_time.get(path, 0)\<close>\<close>

definition last_time :: "handler \<Rightarrow> string \<Rightarrow> real" where
  "last_time h p = (case last_event_time h p of None \<Rightarrow> 0 | Some t \<Rightarrow> t)"

definition should_process :: "handler \<Rightarrow> real \<Rightarrow> string \<Rightarrow> bool \<times> handler" where
  "should_process h now p =
     (if \<not> is_supported p then (False, h)
      else if now - last_time h p < cooldown_seconds h then (False, h)
      else (True, h\<lparr>last_event_time := (last_event_time h)(p \<mapsto> now)\<rparr>))"

definition queue_event :: "handler \<Rightarrow> action \<Rightarrow> string \<Rightarrow> handler" where
  "queue_event h a p =
     h\<lparr>queue := queue h @ [\<lparr>ev_action = a, ev_folder_id = h_folder_id h, ev_path = p\<rparr>]\<rparr>"

definition on_created :: "handler \<Rightarrow> real \<Rightarrow> fs_event \<Rightarrow> handler" where
  "on_created h now e =
     (if is_directory e then h
      else case should_process h now (src_path e) of
             (True, h') \<Rightarrow> queue_event h' Create (src_path e)
           | (False, h') \<Rightarrow> h')"

definition on_modified :: "handler \<Rightarrow> real \<Rightarrow> fs_event \<Rightarrow> handler" where
  "on_modified h now e =
     (if is_directory e then h
      else case should_process h now (src_path e) of
             (True, h') \<Rightarrow> queue_event h' Modify (src_path e)
           | (False, h') \<Rightarrow> h')"

definition on_deleted :: "handler \<Rightarrow> fs_event \<Rightarrow> handler" where
  "on_deleted h e =
     (if is_directory e then h else queue_event h Delete (src_path e))"

text \<open>
  \<open>on_moved\<close> calls \<open>_should_process\<close> twice, so it reads the clock twice: \<open>now1\<close> for the
  source path, \<open>now2\<close> for the destination path.
\<close>

definition on_moved :: "handler \<Rightarrow> real \<Rightarrow> real \<Rightarrow> fs_event \<Rightarrow> handler" where
  "on_moved h now1 now2 e =
     (if is_directory e then h
      else
        let h1 = (case should_process h now1 (src_path e) of
                    (True, h') \<Rightarrow> queue_event h' Delete (src_path e)
                  | (False, h') \<Rightarrow> h')
        in case should_process h1 now2 (dest_path e) of
             (True, h') \<Rightarrow> queue_event h' Create (dest_path e)
           | (False, h') \<Rightarrow> h')"

definition file_ev :: "string \<Rightarrow> fs_event" where
  "file_ev p = \<lparr>is_directory = False, src_path = p, dest_path = []\<rparr>"

definition move_ev :: "string \<Rightarrow> string \<Rightarrow> fs_event" where
  "move_ev p q = \<lparr>is_directory = False, src_path = p, dest_path = q\<rparr>"


section \<open>The persistence layer: \<open>app/database/models.py\<close>, \<open>app/database/crud.py\<close>\<close>

text \<open>
  Each table is the list of its rows in insertion order.  Timestamps are clock readings
  (reals); the columns \<open>created_at\<close> and \<open>modified_at\<close>, which no operation below reads,
  are left out.  A vector is a list of reals standing for a NumPy float array, and a stored
  payload is a byte string.
\<close>

type_synonym vec = "real list"
type_synonym bytes = "char list"

record folder =
  folder_id :: nat
  folder_path :: string
  folder_modality :: string
  is_active :: bool
  last_indexed_at :: "real option"

record file_row =
  file_id :: nat
  file_folder_id :: nat
  file_path :: string
  filename :: string
  file_modality :: string
  file_size :: "nat option"
  mime_type :: "string option"
  duration_seconds :: "real option"
  is_deleted :: bool
  deletion_notified :: bool
  indexed_at :: "real option"

record embedding =
  embedding_id :: nat
  emb_file_id :: nat
  emb_modality :: string
  embedding_type :: string
  vector :: "bytes option"

record indexing_job =
  job_id :: nat
  job_type :: string
  job_folder_id :: "nat option"
  status :: string
  total_files :: int
  processed_files :: int
  failed_files :: int
  error_message :: "string option"
  started_at :: "real option"
  completed_at :: "real option"

record db =
  folders :: "folder list"
  files :: "file_row list"
  embeddings :: "embedding list"
  jobs :: "indexing_job list"

text \<open>
  What the code reaches outside the repository: NumPy's \<open>np.save\<close> and \<open>np.load\<close>, the file
  system, \<open>mimetypes.guess_type\<close>, and the model behind the embedding generator.  A
  provider call returns a vector, \<open>None\<close>, or raises (loading the model happens outside the
  generator's own \<open>try\<close>).
\<close>

datatype exn =
  ProviderError string
| ValueError
| AttributeError
| IntegrityError
| FileNotFoundError

record fs_entry =
  is_file :: bool
  readable :: bool
  st_size :: nat

record env =
  np_save :: "vec \<Rightarrow> bytes"
  np_load :: "bytes \<Rightarrow> vec"
  fs :: "(string \<times> fs_entry) list"
  guess_type :: "string \<Rightarrow> string option"
  audio_model :: "string \<Rightarrow> exn + vec option"
  video_model :: "string \<Rightarrow> exn + vec option"
  text_model :: "string \<Rightarrow> string \<Rightarrow> exn + vec option"

text \<open>
  \<open>serialize_array\<close> writes the array with \<open>np.save\<close> into a buffer and returns its bytes;
  \<open>deserialize_array\<close> reads them back with \<open>np.load\<close>.
\<close>

definition serialize_array :: "env \<Rightarrow> vec \<Rightarrow> bytes" where
  "serialize_array E array = np_save E array"

definition deserialize_array :: "env \<Rightarrow> bytes \<Rightarrow> vec" where
  "deserialize_array E blob = np_load E blob"

text \<open>An autoincrement key: one more than the largest key in the table.\<close>

definition next_id :: "nat list \<Rightarrow> nat" where
  "next_id ids = Suc (fold max ids 0)"

subsection \<open>\<open>FolderCRUD\<close>\<close>

definition folder_get :: "db \<Rightarrow> nat \<Rightarrow> folder option" where
  "folder_get d i = find (\<lambda>f. folder_id f = i) (folders d)"

definition folder_list_all :: "db \<Rightarrow> bool \<Rightarrow> folder list" where
  "folder_list_all d active_only =
     (if active_only then filter is_active (folders d) else folders d)"

definition folder_update_last_indexed :: "db \<Rightarrow> nat \<Rightarrow> real \<Rightarrow> db" where
  "folder_update_last_indexed d i ts =
     d\<lparr>folders := map (\<lambda>f. if folder_id f = i then f\<lparr>last_indexed_at := Some ts\<rparr> else f)
                       (folders d)\<rparr>"

subsection \<open>\<open>FileCRUD\<close>\<close>

definition file_create ::
  "db \<Rightarrow> nat \<Rightarrow> string \<Rightarrow> string \<Rightarrow> string \<Rightarrow> nat option \<Rightarrow> string option \<Rightarrow> db \<times> file_row"
where
  "file_create d fid p fname m sz mt =
     (let f = \<lparr>file_id = next_id (map file_id (files d)), file_folder_id = fid,
                file_path = p, filename = fname, file_modality = m, file_size = sz,
                mime_type = mt, duration_seconds = None, is_deleted = False,
                deletion_notified = False, indexed_at = None\<rparr>
      in (d\<lparr>files := files d @ [f]\<rparr>, f))"

definition file_get :: "db \<Rightarrow> nat \<Rightarrow> file_row option" where
  "file_get d i = find (\<lambda>f. file_id f = i) (files d)"

definition file_get_by_path :: "db \<Rightarrow> string \<Rightarrow> file_row option" where
  "file_get_by_path d p = find (\<lambda>f. file_path f = p) (files d)"

definition mark_deleted :: "db \<Rightarrow> string \<Rightarrow> bool \<times> db" where
  "mark_deleted d p =
     (case file_get_by_path d p of
        None \<Rightarrow> (False, d)
      | Some f0 \<Rightarrow>
          (True, d\<lparr>files := map (\<lambda>f. if file_id f = file_id f0
                                       then f\<lparr>is_deleted := True, deletion_notified := False\<rparr>
                                       else f) (files d)\<rparr>))"

definition mark_deletion_notified :: "db \<Rightarrow> nat \<Rightarrow> bool \<times> db" where
  "mark_deletion_notified d i =
     (case file_get d i of
        None \<Rightarrow> (False, d)
      | Some f0 \<Rightarrow>
          (True, d\<lparr>files := map (\<lambda>f. if file_id f = i then f\<lparr>deletion_notified := True\<rparr> else f)
                                  (files d)\<rparr>))"

definition update_indexed_at :: "db \<Rightarrow> nat \<Rightarrow> real \<Rightarrow> db" where
  "update_indexed_at d i now =
     d\<lparr>files := map (\<lambda>f. if file_id f = i then f\<lparr>indexed_at := Some now\<rparr> else f) (files d)\<rparr>"

subsection \<open>\<open>EmbeddingCRUD\<close>\<close>

definition embedding_create :: "env \<Rightarrow> db \<Rightarrow> nat \<Rightarrow> vec \<Rightarrow> string \<Rightarrow> string \<Rightarrow> db" where
  "embedding_create E d fid v m ty =
     d\<lparr>embeddings := embeddings d @
          [\<lparr>embedding_id = next_id (map embedding_id (embeddings d)), emb_file_id = fid,
            emb_modality = m, embedding_type = ty, vector = Some (serialize_array E v)\<rparr>]\<rparr>"

definition get_by_file :: "db \<Rightarrow> nat \<Rightarrow> embedding list" where
  "get_by_file d fid = filter (\<lambda>e. emb_file_id e = fid) (embeddings d)"

text \<open>
  \<open>np.dot\<close> of two one-dimensional arrays: the sum of the products, a \<open>ValueError\<close> when
  the lengths differ.
\<close>

definition dot :: "vec \<Rightarrow> vec \<Rightarrow> exn + real" where
  "dot q v = (if length q \<noteq> length v then Inl ValueError
              else Inr (sum_list (map2 (*) q v)))"

text \<open>
  The slice \<open>xs[:k]\<close> for a Python integer \<open>k\<close>: a negative \<open>k\<close> counts from the end.
\<close>

definition py_take :: "int \<Rightarrow> 'a list \<Rightarrow> 'a list" where
  "py_take k xs = (if 0 \<le> k then take (nat k) xs else take (length xs - nat (- k)) xs)"

text \<open>
  \<open>list.sort(key=lambda x: x[1], reverse=True)\<close>: descending by score, and stable (equal
  scores keep their order in the list).
\<close>

definition sort_desc :: "('a \<Rightarrow> real) \<Rightarrow> 'a list \<Rightarrow> 'a list" where
  "sort_desc key xs = sort_key (\<lambda>x. - key x) xs"

text \<open>
  The rows of the join of \<open>File\<close> and \<open>Embedding\<close> that pass the filters.  The query has no
  \<open>ORDER BY\<close>.  SQLite answers it by walking the embeddings and looking each file up by
  its key, so the rows come in the order of the embeddings table; the model takes them in
  that order.
\<close>

definition candidate_rows ::
  "db \<Rightarrow> string option \<Rightarrow> nat list option \<Rightarrow> bool \<Rightarrow> (file_row \<times> embedding) list"
where
  "candidate_rows d modality folder_ids exclude_deleted =
     filter (\<lambda>(f, e).
               file_id f = emb_file_id e \<and> vector e \<noteq> None
             \<and> (case modality of None \<Rightarrow> True
                 | Some m \<Rightarrow> m = [] \<or> emb_modality e = m)
             \<and> (case folder_ids of None \<Rightarrow> True
                 | Some ids \<Rightarrow> ids = [] \<or> file_folder_id f \<in> set ids)
             \<and> (if exclude_deleted then \<not> is_deleted f else True))
       (concat (map (\<lambda>e. map (\<lambda>f. (f, e)) (files d)) (embeddings d)))"

fun score_rows ::
  "env \<Rightarrow> vec \<Rightarrow> real \<Rightarrow> (file_row \<times> embedding) list \<Rightarrow> exn + (file_row \<times> real) list"
where
  "score_rows E q threshold [] = Inr []"
| "score_rows E q threshold ((f, e) # rows) =
     (case vector e of
        None \<Rightarrow> score_rows E q threshold rows
      | Some blob \<Rightarrow>
          (case dot q (deserialize_array E blob) of
             Inl x \<Rightarrow> Inl x
           | Inr similarity \<Rightarrow>
               (case score_rows E q threshold rows of
                  Inl x \<Rightarrow> Inl x
                | Inr rest \<Rightarrow>
                    Inr (if similarity \<ge> threshold then (f, similarity) # rest else rest))))"

definition search_similar ::
  "env \<Rightarrow> db \<Rightarrow> vec \<Rightarrow> string option \<Rightarrow> nat list option \<Rightarrow> int \<Rightarrow> real \<Rightarrow> bool
     \<Rightarrow> exn + (file_row \<times> real) list"
where
  "search_similar E d query_vector modality folder_ids top_k threshold exclude_deleted =
     (case score_rows E query_vector threshold
             (candidate_rows d modality folder_ids exclude_deleted) of
        Inl x \<Rightarrow> Inl x
      | Inr similar_files \<Rightarrow> Inr (py_take top_k (sort_desc snd similar_files)))"

subsection \<open>\<open>IndexingJobCRUD\<close>\<close>

definition job_create :: "db \<Rightarrow> string \<Rightarrow> nat option \<Rightarrow> db \<times> indexing_job" where
  "job_create d jt fid =
     (let j = \<lparr>job_id = next_id (map job_id (jobs d)), job_type = jt, job_folder_id = fid,
                status = ''pending'', total_files = 0, processed_files = 0, failed_files = 0,
                error_message = None, started_at = None, completed_at = None\<rparr>
      in (d\<lparr>jobs := jobs d @ [j]\<rparr>, j))"

definition job_get :: "db \<Rightarrow> nat \<Rightarrow> indexing_job option" where
  "job_get d i = find (\<lambda>j. job_id j = i) (jobs d)"

definition upd_job :: "db \<Rightarrow> nat \<Rightarrow> (indexing_job \<Rightarrow> indexing_job) \<Rightarrow> db" where
  "upd_job d i g = d\<lparr>jobs := map (\<lambda>j. if job_id j = i then g j else j) (jobs d)\<rparr>"

definition update_status :: "db \<Rightarrow> nat \<Rightarrow> string \<Rightarrow> string option \<Rightarrow> real \<Rightarrow> db" where
  "update_status d i st msg now =
     upd_job d i (\<lambda>j.
       let j1 = j\<lparr>status := st\<rparr>;
           j2 = (case msg of None \<Rightarrow> j1
                 | Some m \<Rightarrow> if m = [] then j1 else j1\<lparr>error_message := Some m\<rparr>)
       in if st = ''running'' \<and> started_at j2 = None then j2\<lparr>started_at := Some now\<rparr>
          else if st = ''completed'' \<or> st = ''failed'' then j2\<lparr>completed_at := Some now\<rparr>
          else j2)"

definition increment_progress :: "db \<Rightarrow> nat \<Rightarrow> int \<Rightarrow> int \<Rightarrow> db" where
  "increment_progress d i processed failed =
     upd_job d i (\<lambda>j. j\<lparr>processed_files := processed_files j + processed,
                          failed_files := failed_files j + failed\<rparr>)"

definition set_total_files :: "db \<Rightarrow> nat \<Rightarrow> int \<Rightarrow> db" where
  "set_total_files d i n = upd_job d i (\<lambda>j. j\<lparr>total_files := n\<rparr>)"


section \<open>Validation and the embedding generator\<close>

definition startswith :: "string \<Rightarrow> string \<Rightarrow> bool" where
  "startswith s p = (take (length p) s = p)"

definition endswith :: "string \<Rightarrow> string \<Rightarrow> bool" where
  "endswith s p = (drop (length s - length p) s = p)"

definition path_exists :: "env \<Rightarrow> string \<Rightarrow> bool" where
  "path_exists E p = (map_of (fs E) p \<noteq> None)"

text \<open>\<open>FileProcessor.validate_file\<close>: the pair \<open>(is_valid, error_message)\<close>.\<close>

definition validate_file :: "env \<Rightarrow> string \<Rightarrow> bool \<times> string option" where
  "validate_file E fpath =
     (case map_of (fs E) fpath of
        None \<Rightarrow> (False, Some (''File not found: '' @ fpath))
      | Some en \<Rightarrow>
          if \<not> is_file en then (False, Some (''Path is not a file: '' @ fpath))
          else if \<not> readable en then (False, Some (''File not readable: '' @ fpath))
          else if st_size en = 0 then (False, Some (''File is empty: '' @ fpath))
          else if \<not> is_supported fpath
            then (False, Some (''Unsupported file format: '' @ fpath))
          else (True, None))"

record file_info =
  fi_path :: string
  fi_filename :: string
  fi_file_size :: nat
  fi_modality :: "string option"

text \<open>\<open>FileProcessor.get_file_info\<close>; \<open>path.stat()\<close> raises when the path is missing.\<close>

definition get_file_info :: "env \<Rightarrow> string \<Rightarrow> exn + file_info" where
  "get_file_info E fpath =
     (case map_of (fs E) fpath of
        None \<Rightarrow> Inl FileNotFoundError
      | Some en \<Rightarrow>
          Inr \<lparr>fi_path = fpath, fi_filename = path_name fpath,
               fi_file_size = st_size en, fi_modality = detect fpath\<rparr>)"

definition get_mime_type :: "env \<Rightarrow> string \<Rightarrow> string option" where
  "get_mime_type E fpath = guess_type E fpath"

definition generate_audio_embedding :: "env \<Rightarrow> string \<Rightarrow> exn + vec option" where
  "generate_audio_embedding E audio_path =
     (if \<not> path_exists E audio_path then Inr None else audio_model E audio_path)"

definition generate_video_embedding :: "env \<Rightarrow> string \<Rightarrow> exn + vec option" where
  "generate_video_embedding E video_path =
     (if \<not> path_exists E video_path then Inr None else video_model E video_path)"

definition generate_text_embedding :: "env \<Rightarrow> string \<Rightarrow> string \<Rightarrow> exn + vec option" where
  "generate_text_embedding E text target_modality = text_model E text target_modality"

definition generate_embedding_for_file ::
  "env \<Rightarrow> string \<Rightarrow> string option \<Rightarrow> exn + vec option"
where
  "generate_embedding_for_file E fpath modality =
     (if modality = Some ''audio'' then generate_audio_embedding E fpath
      else if modality = Some ''video'' then generate_video_embedding E fpath
      else if modality = Some ''audio_video'' then generate_video_embedding E fpath
      else Inr None)"


section \<open>The deletion tracker: \<open>app/services/deletion_tracker.py\<close>\<close>

definition mark_file_deleted :: "db \<Rightarrow> string \<Rightarrow> bool \<times> db" where
  "mark_file_deleted d fpath = mark_deleted d fpath"

definition deletion_warning :: "file_row \<Rightarrow> string" where
  "deletion_warning f =
     ''Warning: Matching file '' @ [CHR 0x27] @ filename f @ [CHR 0x27]
       @ '' has been deleted from source. ''
       @ ''The file was originally located at: '' @ file_path f"

definition notify_if_deleted :: "db \<Rightarrow> nat \<Rightarrow> string option \<times> db" where
  "notify_if_deleted d i =
     (case file_get d i of
        None \<Rightarrow> (None, d)
      | Some f \<Rightarrow>
          if is_deleted f \<and> \<not> deletion_notified f
          then (Some (deletion_warning f), snd (mark_deletion_notified d i))
          else (None, d))"


section \<open>Scan jobs: \<open>app/services/indexing_service.py\<close>\<close>

record scan_info =
  si_path :: string
  si_filename :: string
  si_modality :: "string option"

text \<open>
  \<open>folder.rglob("*" + ext)\<close> over the file-system listing: the entries below the folder
  whose name ends with the extension.  The source iterates a set of extensions, in no
  specified order; the model takes the audio extensions first.
\<close>

definition rglob :: "env \<Rightarrow> string \<Rightarrow> string \<Rightarrow> (string \<times> fs_entry) list" where
  "rglob E dir ext =
     filter (\<lambda>(p, en). startswith p (dir @ ''/'') \<and> endswith (path_name p) ext)
       (fs E)"

definition scan_folder :: "env \<Rightarrow> string \<Rightarrow> string \<Rightarrow> scan_info list" where
  "scan_folder E dir modality =
     (let extensions =
            (if modality = ''all'' \<or> modality = ''audio'' then AUDIO_EXTENSIONS else [])
          @ (if modality = ''all'' \<or> modality = ''video'' \<or> modality = ''audio_video''
             then VIDEO_EXTENSIONS else [])
      in concat (map (\<lambda>ext.
           map (\<lambda>(p, en). \<lparr>si_path = p, si_filename = path_name p, si_modality = detect p\<rparr>)
             (filter (\<lambda>(p, en). is_file en) (rglob E dir ext)))
           extensions))"

text \<open>
  The folder lookup of \<open>_index_file\<close>: the first active folder, in table order, whose
  path is a string prefix of the file's path.
\<close>

definition resolve_folder :: "db \<Rightarrow> string \<Rightarrow> nat option" where
  "resolve_folder d path =
     map_option folder_id
       (find (\<lambda>folder. startswith path (folder_path folder)) (folder_list_all d True))"

text \<open>
  The update-or-create step of \<open>_index_file\<close>.  A \<open>None\<close> modality cannot be stored (the
  column is not nullable).
\<close>

definition upsert_embedding ::
  "env \<Rightarrow> real \<Rightarrow> db \<Rightarrow> nat \<Rightarrow> vec \<Rightarrow> string option \<Rightarrow> db \<times> exn option"
where
  "upsert_embedding E now d fid embedding modality =
     (if get_by_file d fid \<noteq> []
      then (update_indexed_at
              (d\<lparr>embeddings :=
                   map (\<lambda>emb. if emb_file_id emb = fid
                               then emb\<lparr>vector := Some (serialize_array E embedding)\<rparr>
                               else emb) (embeddings d)\<rparr>)
              fid now, None)
      else case modality of
             None \<Rightarrow> (d, Some IntegrityError)
           | Some m \<Rightarrow> (embedding_create E d fid embedding m (m @ ''_embeds''), None))"

text \<open>
  \<open>IndexingService._index_file\<close>.  The result is the database after the call and the
  exception that left it, if any: what was committed before an exception stays.
\<close>

definition svc_index_file :: "env \<Rightarrow> real \<Rightarrow> db \<Rightarrow> scan_info \<Rightarrow> db \<times> exn option" where
  "svc_index_file E now d info =
     (let path = si_path info; modality = si_modality info
      in if \<not> fst (validate_file E path) then (d, None)
         else
           case (case file_get_by_path d path of
                   Some f \<Rightarrow> Inr (d, f)
                 | None \<Rightarrow>
                     (case resolve_folder d path of
                        None \<Rightarrow> Inl (d, None)
                      | Some fid \<Rightarrow>
                          (case get_file_info E path of
                             Inl x \<Rightarrow> Inl (d, Some x)
                           | Inr fi \<Rightarrow>
                               (case fi_modality fi of
                                  None \<Rightarrow> Inl (d, Some IntegrityError)
                                | Some m \<Rightarrow>
                                    Inr (file_create d fid path (fi_filename fi) m
                                           (Some (fi_file_size fi)) (get_mime_type E path)))))) of
             Inl r \<Rightarrow> r
           | Inr (d1, f) \<Rightarrow>
               (case generate_embedding_for_file E path modality of
                  Inl x \<Rightarrow> (d1, Some x)
                | Inr None \<Rightarrow> (d1, None)
                | Inr (Some embedding) \<Rightarrow>
                    upsert_embedding E now d1 (file_id f) embedding modality))"

text \<open>
  The loop of \<open>_perform_indexing\<close> over the collected files: \<open>increment_progress(db,
  job_id)\<close> after a call that returned, \<open>increment_progress(db, job_id, failed=1)\<close> in the
  \<open>except\<close> branch; both keep the default \<open>processed=1\<close>.
\<close>

fun process_files :: "env \<Rightarrow> real \<Rightarrow> nat \<Rightarrow> db \<Rightarrow> scan_info list \<Rightarrow> db" where
  "process_files E now jid d [] = d"
| "process_files E now jid d (info # rest) =
     (case svc_index_file E now d info of
        (d1, None) \<Rightarrow> process_files E now jid (increment_progress d1 jid 1 0) rest
      | (d1, Some e) \<Rightarrow> process_files E now jid (increment_progress d1 jid 1 1) rest)"

text \<open>
  \<open>_perform_indexing\<close>, in three parts: the folders to index (\<open>if folder_id:\<close> treats the
  id 0 like \<open>None\<close>), the files collected from them, and the job itself.  The clock is
  read once in the model.  Nothing modelled here raises outside the per-file \<open>try\<close>, so
  the \<open>failed\<close> branch of the outer \<open>except\<close> has no counterpart.
\<close>

definition target_folders :: "db \<Rightarrow> nat option \<Rightarrow> folder list" where
  "target_folders d fid =
     (case fid of
        None \<Rightarrow> folder_list_all d True
      | Some i \<Rightarrow>
          if i = 0 then folder_list_all d True
          else (case folder_get d i of
                  None \<Rightarrow> []
                | Some f \<Rightarrow> if is_active f then [f] else []))"

definition collect_files :: "env \<Rightarrow> folder list \<Rightarrow> scan_info list" where
  "collect_files E fldrs =
     concat (map (\<lambda>f. scan_folder E (folder_path f) (folder_modality f)) fldrs)"

definition perform_indexing :: "env \<Rightarrow> real \<Rightarrow> db \<Rightarrow> nat \<Rightarrow> nat option \<Rightarrow> db" where
  "perform_indexing E now d jid fid =
     (let d1 = update_status d jid ''running'' None now;
          fldrs = target_folders d1 fid
      in if fldrs = [] then update_status d1 jid ''completed'' None now
         else
           let all_files = collect_files E fldrs;
               d2 = set_total_files d1 jid (int (length all_files));
               d3 = process_files E now jid d2 all_files;
               d4 = fold (\<lambda>f acc. folder_update_last_indexed acc (folder_id f) now) fldrs d3
           in update_status d4 jid ''completed'' None now)"

text \<open>\<open>index_folder\<close> creates the job; the task it starts is \<open>perform_indexing\<close>.\<close>

definition index_folder :: "env \<Rightarrow> real \<Rightarrow> db \<Rightarrow> nat option \<Rightarrow> string \<Rightarrow> nat \<times> db" where
  "index_folder E now d fid mode =
     (let (d1, job) = job_create d (if mode = ''full'' then ''full_scan'' else ''incremental'') fid
      in (job_id job, perform_indexing E now d1 (job_id job) fid))"


section \<open>Event-driven indexing: \<open>app/monitoring/indexer.py\<close>\<close>

text \<open>
  \<open>IndexingWorker._index_file\<close>.  A path without a \<open>File\<close> row is skipped.  When the file
  already has embeddings the loop calls \<open>embedding.SerializeToString()\<close> on the NumPy
  array, which has no such attribute: the first iteration raises.
\<close>

definition worker_index_file :: "env \<Rightarrow> db \<Rightarrow> string \<Rightarrow> db \<times> exn option" where
  "worker_index_file E d path =
     (if \<not> fst (validate_file E path) then (d, None)
      else
        case get_file_info E path of
          Inl x \<Rightarrow> (d, Some x)
        | Inr fi \<Rightarrow>
            (let modality = fi_modality fi
             in (case file_get_by_path d path of
                 None \<Rightarrow> (d, None)
               | Some existing_file \<Rightarrow>
                   (case generate_embedding_for_file E path modality of
                      Inl x \<Rightarrow> (d, Some x)
                    | Inr None \<Rightarrow> (d, None)
                    | Inr (Some embedding) \<Rightarrow>
                        if get_by_file d (file_id existing_file) \<noteq> []
                        then (d, Some AttributeError)
                        else (case modality of
                                None \<Rightarrow> (d, Some IntegrityError)
                              | Some m \<Rightarrow>
                                  (embedding_create E d (file_id existing_file) embedding m
                                     (m @ ''_embeds''), None))))))"

definition worker_mark_file_deleted :: "db \<Rightarrow> string \<Rightarrow> db" where
  "worker_mark_file_deleted d path = snd (mark_deleted d path)"

text \<open>\<open>_process_event\<close> logs an exception and drops it.\<close>

definition process_event :: "env \<Rightarrow> db \<Rightarrow> file_event \<Rightarrow> db" where
  "process_event E d ev =
     (case ev_action ev of
        Delete \<Rightarrow> worker_mark_file_deleted d (ev_path ev)
      | _ \<Rightarrow> fst (worker_index_file E d (ev_path ev)))"


section \<open>Search: \<open>app/core/similarity_calculator.py\<close>, \<open>app/services/search_service.py\<close>\<close>

text \<open>
  A Python dictionary keeps its keys in insertion order; assigning to a key that is
  present keeps its position.
\<close>

fun dict_set :: "'k \<Rightarrow> 'v \<Rightarrow> ('k \<times> 'v) list \<Rightarrow> ('k \<times> 'v) list" where
  "dict_set k v [] = [(k, v)]"
| "dict_set k v ((k', v') # ps) =
     (if k' = k then (k, v) # ps else (k', v') # dict_set k v ps)"

fun text_query_embeddings ::
  "env \<Rightarrow> string \<Rightarrow> string list \<Rightarrow> (string \<times> vec) list \<Rightarrow> exn + (string \<times> vec) list"
where
  "text_query_embeddings E q [] acc = Inr acc"
| "text_query_embeddings E q (m # ms) acc =
     (case generate_text_embedding E q
             (if m = ''audio'' then ''audio''
              else if m = ''video'' then ''video'' else ''audio_video'') of
        Inl x \<Rightarrow> Inl x
      | Inr None \<Rightarrow> text_query_embeddings E q ms acc
      | Inr (Some emb) \<Rightarrow> text_query_embeddings E q ms (dict_set m emb acc))"

definition compute_query_embedding ::
  "env \<Rightarrow> string \<Rightarrow> string \<Rightarrow> string list \<Rightarrow> exn + (string \<times> vec) list"
where
  "compute_query_embedding E q query_type target_modalities =
     (if query_type = ''text'' then text_query_embeddings E q target_modalities []
      else if query_type = ''audio'' then
        (case generate_audio_embedding E q of
           Inl x \<Rightarrow> Inl x
         | Inr None \<Rightarrow> Inr []
         | Inr (Some emb) \<Rightarrow>
             Inr (fold (\<lambda>m acc. if m = ''audio'' \<or> m = ''audio_video''
                                 then dict_set m emb acc else acc) target_modalities []))
      else if query_type = ''video'' then
        (case generate_video_embedding E q of
           Inl x \<Rightarrow> Inl x
         | Inr None \<Rightarrow> Inr []
         | Inr (Some emb) \<Rightarrow>
             Inr (fold (\<lambda>m acc. if m = ''video'' \<or> m = ''audio_video''
                                 then dict_set m emb acc else acc) target_modalities []))
      else Inr [])"

record search_request =
  query :: string
  query_type :: string
  modalities :: "string list option"
  req_folder_ids :: "nat list option"
  top_k :: int
  threshold :: real

record file_metadata =
  md_id :: nat
  md_path :: string
  md_filename :: string
  md_modality :: string
  md_file_size :: "nat option"
  md_mime_type :: "string option"
  md_duration_seconds :: "real option"
  md_is_deleted :: bool
  md_indexed_at :: "real option"

record search_result =
  sr_file_id :: nat
  sr_path :: string
  sr_filename :: string
  sr_modality :: string
  similarity :: real
  metadata :: file_metadata
  sr_is_deleted :: bool

text \<open>The elapsed time \<open>query_time_ms\<close> of the response is not modelled.\<close>

record search_response =
  results :: "search_result list"
  total_count :: nat
  warnings :: "string list option"

definition mk_result :: "file_row \<Rightarrow> real \<Rightarrow> search_result" where
  "mk_result f s =
     \<lparr>sr_file_id = file_id f, sr_path = file_path f, sr_filename = filename f,
      sr_modality = file_modality f, similarity = s,
      metadata = \<lparr>md_id = file_id f, md_path = file_path f, md_filename = filename f,
                   md_modality = file_modality f, md_file_size = file_size f,
                   md_mime_type = mime_type f, md_duration_seconds = duration_seconds f,
                   md_is_deleted = is_deleted f, md_indexed_at = indexed_at f\<rparr>,
      sr_is_deleted = is_deleted f\<rparr>"

text \<open>The loop over the modalities of the query-embedding dictionary.\<close>

fun gather_results ::
  "env \<Rightarrow> db \<Rightarrow> search_request \<Rightarrow> (string \<times> vec) list
     \<Rightarrow> exn + (file_row \<times> real \<times> string) list"
where
  "gather_results E d req [] = Inr []"
| "gather_results E d req ((modality, query_emb) # qes) =
     (case search_similar E d query_emb (Some modality) (req_folder_ids req) (top_k req)
             (threshold req) True of
        Inl x \<Rightarrow> Inl x
      | Inr rs \<Rightarrow>
          (case gather_results E d req qes of
             Inl x \<Rightarrow> Inl x
           | Inr rest \<Rightarrow> Inr (map (\<lambda>(f, s). (f, s, modality)) rs @ rest)))"

text \<open>
  The loop that builds the response: \<open>tracker\<close> says whether a deletion tracker is
  configured; \<open>if warning:\<close> keeps a non-empty string.
\<close>

fun build_results ::
  "bool \<Rightarrow> db \<Rightarrow> (file_row \<times> real \<times> string) list \<Rightarrow> search_result list \<times> string list \<times> db"
where
  "build_results tracker d [] = ([], [], d)"
| "build_results tracker d ((f, s, m) # rest) =
     (let (w, d1) = (if tracker \<and> is_deleted f then notify_if_deleted d (file_id f)
                     else (None, d));
          (rs, ws, d2) = build_results tracker d1 rest
      in (mk_result f s # rs,
          (case w of None \<Rightarrow> ws | Some x \<Rightarrow> if x = [] then ws else x # ws),
          d2))"

definition merge_results ::
  "search_request \<Rightarrow> (file_row \<times> real \<times> string) list \<Rightarrow> (file_row \<times> real \<times> string) list"
where
  "merge_results req all_results =
     py_take (top_k req) (sort_desc (\<lambda>x. fst (snd x)) all_results)"

text \<open>\<open>request.modalities or ["audio", "video", "audio_video"]\<close>\<close>

definition target_modalities_of :: "search_request \<Rightarrow> string list" where
  "target_modalities_of req =
     (case modalities req of
        None \<Rightarrow> [''audio'', ''video'', ''audio_video'']
      | Some ms \<Rightarrow> if ms = [] then [''audio'', ''video'', ''audio_video''] else ms)"

definition search ::
  "env \<Rightarrow> bool \<Rightarrow> db \<Rightarrow> search_request \<Rightarrow> exn + (search_response \<times> db)"
where
  "search E tracker d req =
     (let target_modalities = target_modalities_of req
      in case compute_query_embedding E (query req) (query_type req) target_modalities of
           Inl x \<Rightarrow> Inl x
         | Inr query_embeddings \<Rightarrow>
             if query_embeddings = []
             then Inr (\<lparr>results = [], total_count = 0, warnings = None\<rparr>, d)
             else
               (case gather_results E d req query_embeddings of
                  Inl x \<Rightarrow> Inl x
                | Inr all_results \<Rightarrow>
                    let (search_results, ws, d1) =
                          build_results tracker d (merge_results req all_results)
                    in Inr (\<lparr>results = search_results,
                              total_count = length search_results,
                              warnings = (if ws = [] then None else Some ws)\<rparr>, d1)))"


section \<open>Invariants and sample data\<close>

text \<open>The primary key of the \<open>files\<close> table.\<close>

definition pk_ok :: "db \<Rightarrow> bool" where
  "pk_ok d = distinct (map file_id (files d))"

text \<open>
  One turn of the loop of \<open>search\<close> over the query embeddings: the scan it runs for an
  entry \<open>(modality, query_emb)\<close>, and the rows it appends for the scan's result.
\<close>

definition tag_modality ::
  "string \<times> vec \<Rightarrow> (file_row \<times> real) list \<Rightarrow> (file_row \<times> real \<times> string) list"
where
  "tag_modality qe rs = map (\<lambda>(f, s). (f, s, fst qe)) rs"

definition modality_scan ::
  "env \<Rightarrow> db \<Rightarrow> search_request \<Rightarrow> string \<times> vec \<Rightarrow> exn + (file_row \<times> real) list"
where
  "modality_scan E d req qe =
     search_similar E d (snd qe) (Some (fst qe)) (req_folder_ids req) (top_k req)
       (threshold req) True"

text \<open>
  The score of a candidate row: the dot product of the query with the deserialized
  payload, when the row has a payload and the product is defined.
\<close>

definition scored :: "env \<Rightarrow> vec \<Rightarrow> file_row \<times> embedding \<Rightarrow> real \<Rightarrow> bool" where
  "scored E q row s =
     (case vector (snd row) of
        None \<Rightarrow> False
      | Some blob \<Rightarrow> dot q (deserialize_array E blob) = Inr s)"

text \<open>The provider contract: a call returns a vector or \<open>None\<close> and never raises.\<close>

definition never_raises :: "env \<Rightarrow> bool" where
  "never_raises E =
     ((\<forall>p. \<exists>r. audio_model E p = Inr r) \<and> (\<forall>p. \<exists>r. video_model E p = Inr r))"

text \<open>Adding \<open>n\<close> to the processed counter of the job \<open>jid\<close>.\<close>

definition bump :: "nat \<Rightarrow> int \<Rightarrow> indexing_job \<Rightarrow> indexing_job" where
  "bump jid n j = (if job_id j = jid then j\<lparr>processed_files := processed_files j + n\<rparr> else j)"

text \<open>The row that \<open>FileCRUD.create\<close> adds for a path first seen by a scan.\<close>

definition new_file :: "env \<Rightarrow> db \<Rightarrow> nat \<Rightarrow> string \<Rightarrow> string \<Rightarrow> nat \<Rightarrow> file_row" where
  "new_file E d fid path m sz =
     \<lparr>file_id = next_id (map file_id (files d)), file_folder_id = fid, file_path = path,
      filename = path_name path, file_modality = m, file_size = Some sz,
      mime_type = guess_type E path, duration_seconds = None, is_deleted = False,
      deletion_notified = False, indexed_at = None\<rparr>"

text \<open>
  A small world on which the theorems below are exercised: a codec that round-trips
  vectors of zeros and ones, three audio files below the folder \<open>/m\<close>, and a model that
  yields no vector for \<open>/m/b.mp3\<close>.
\<close>

definition ex_save :: "vec \<Rightarrow> bytes" where
  "ex_save v = map (\<lambda>x. if x = 1 then CHR ''1'' else CHR ''0'') v"

definition ex_load :: "bytes \<Rightarrow> vec" where
  "ex_load b = map (\<lambda>c. if c = CHR ''1'' then 1 else 0) b"

definition ex_entry :: fs_entry where
  "ex_entry = \<lparr>is_file = True, readable = True, st_size = 10\<rparr>"

definition ex_env :: env where
  "ex_env =
     \<lparr>np_save = ex_save, np_load = ex_load,
      fs = [(''/m/a.mp3'', ex_entry), (''/m/b.mp3'', ex_entry), (''/m/c.mp3'', ex_entry)],
      guess_type = (\<lambda>p. Some ''audio/mpeg''),
      audio_model = (\<lambda>p. if p = ''/m/b.mp3'' then Inr None else Inr (Some [1, 0])),
      video_model = (\<lambda>p. Inr None),
      text_model = (\<lambda>q m. Inr (Some [1, 0]))\<rparr>"

definition ex_folder :: folder where
  "ex_folder =
     \<lparr>folder_id = 1, folder_path = ''/m'', folder_modality = ''all'', is_active = True,
      last_indexed_at = None\<rparr>"

definition ex_file :: "nat \<Rightarrow> nat \<Rightarrow> string \<Rightarrow> bool \<Rightarrow> file_row" where
  "ex_file i fo p del =
     \<lparr>file_id = i, file_folder_id = fo, file_path = p, filename = path_name p,
      file_modality = ''audio'', file_size = Some 10, mime_type = Some ''audio/mpeg'',
      duration_seconds = None, is_deleted = del, deletion_notified = False,
      indexed_at = None\<rparr>"

definition ex_emb :: "nat \<Rightarrow> nat \<Rightarrow> bytes \<Rightarrow> embedding" where
  "ex_emb i fid b =
     \<lparr>embedding_id = i, emb_file_id = fid, emb_modality = ''audio'',
      embedding_type = ''audio_embeds'', vector = Some b\<rparr>"

text \<open>The folder is registered and nothing is indexed yet.\<close>

definition ex_db_empty :: db where
  "ex_db_empty = \<lparr>folders = [ex_folder], files = [], embeddings = [], jobs = []\<rparr>"

definition ex_subfolder :: folder where
  "ex_subfolder =
     \<lparr>folder_id = 2, folder_path = ''/m/sub'', folder_modality = ''audio'', is_active = True,
      last_indexed_at = None\<rparr>"

text \<open>
  Two indexed files, in two folders, whose vectors have the same dot product with the
  query.
\<close>

definition ex_db_two :: db where
  "ex_db_two =
     \<lparr>folders = [ex_folder, ex_subfolder],
      files = [ex_file 1 1 ''/m/a.mp3'' False, ex_file 2 2 ''/m/sub/c.mp3'' False],
      embeddings = [ex_emb 1 1 ''10'', ex_emb 2 2 ''10''], jobs = []\<rparr>"

text \<open>One indexed file, soft-deleted.\<close>

definition ex_db_deleted :: db where
  "ex_db_deleted =
     \<lparr>folders = [ex_folder], files = [ex_file 1 1 ''/m/a.mp3'' True],
      embeddings = [ex_emb 1 1 ''10''], jobs = []\<rparr>"

definition ex_request :: search_request where
  "ex_request =
     \<lparr>query = ''rain'', query_type = ''text'', modalities = Some [''audio''],
      req_folder_ids = None, top_k = 10, threshold = 0\<rparr>"

text \<open>The first file is indexed with a vector that is not the one the model gives now.\<close>

definition ex_db_stale :: db where
  "ex_db_stale =
     \<lparr>folders = [ex_folder, ex_subfolder],
      files = [ex_file 1 1 ''/m/a.mp3'' False, ex_file 2 2 ''/m/sub/c.mp3'' False],
      embeddings = [ex_emb 1 1 ''01'', ex_emb 2 2 ''10''], jobs = []\<rparr>"

text \<open>
  A database for ranking: five audio files and two video files, stored so that the order of
  the embeddings is not the order of the files.  Against the query vector \<open>[1, 1]\<close> the
  files 1 and 5 score 2, the files 2, 4, 6 and 7 score 1, and file 3 scores 0.
\<close>

definition ex_vfile :: "nat \<Rightarrow> string \<Rightarrow> file_row" where
  "ex_vfile i p =
     \<lparr>file_id = i, file_folder_id = 1, file_path = p, filename = path_name p,
      file_modality = ''video'', file_size = Some 10, mime_type = Some ''video/mp4'',
      duration_seconds = None, is_deleted = False, deletion_notified = False,
      indexed_at = None\<rparr>"

definition ex_vemb :: "nat \<Rightarrow> nat \<Rightarrow> bytes \<Rightarrow> embedding" where
  "ex_vemb i fid b =
     \<lparr>embedding_id = i, emb_file_id = fid, emb_modality = ''video'',
      embedding_type = ''video_embeds'', vector = Some b\<rparr>"

definition ex_env_rank :: env where
  "ex_env_rank = ex_env\<lparr>text_model := (\<lambda>q m. Inr (Some [1, 1]))\<rparr>"

definition ex_db_rank :: db where
  "ex_db_rank =
     \<lparr>folders = [ex_folder],
      files = [ex_file 1 1 ''/m/a.mp3'' False, ex_file 2 1 ''/m/b.mp3'' False,
               ex_file 3 1 ''/m/c.mp3'' False, ex_vfile 4 ''/m/v.mp4'',
               ex_vfile 5 ''/m/w.mp4'', ex_file 6 1 ''/m/d.mp3'' False,
               ex_file 7 1 ''/m/e.mp3'' False],
      embeddings = [ex_emb 1 6 ''10'', ex_emb 2 1 ''11'', ex_emb 3 3 ''00'',
                    ex_vemb 4 4 ''10'', ex_vemb 5 5 ''11'', ex_emb 6 2 ''01'',
                    ex_emb 7 7 ''10''],
      jobs = []\<rparr>"

definition ex_request_rank :: search_request where
  "ex_request_rank =
     \<lparr>query = ''rain'', query_type = ''text'', modalities = Some [''audio'', ''video''],
      req_folder_ids = None, top_k = 3, threshold = 1\<rparr>"


section \<open>Evaluation facts\<close>

lemmas detect_defs = is_supported_def detect_def suffix_def path_name_def lower_def
  lower_char_def AUDIO_EXTENSIONS_def VIDEO_EXTENSIONS_def

lemmas handler_defs = on_created_def on_modified_def on_deleted_def on_moved_def
  should_process_def queue_event_def last_time_def MultimodalEventHandler_def
  file_ev_def move_ev_def

lemma supported_a_mp3: "is_supported ''/m/a.mp3''"
  by (simp add: detect_defs)

lemma supported_b_mp3: "is_supported ''/m/b.mp3''"
  by (simp add: detect_defs)

lemma unsupported_notes_txt: "\<not> is_supported ''/m/notes.txt''"
  by (simp add: detect_defs)

section \<open>The debouncer\<close>

lemma on_created_eq:
  "\<not> is_directory e \<Longrightarrow> on_created h now e =
     (if is_supported (src_path e) \<and> cooldown_seconds h \<le> now - last_time h (src_path e)
      then queue_event (h\<lparr>last_event_time := (last_event_time h)(src_path e \<mapsto> now)\<rparr>)
             Create (src_path e)
      else h)"
  by (simp add: on_created_def should_process_def)

lemma on_modified_eq:
  "\<not> is_directory e \<Longrightarrow> on_modified h now e =
     (if is_supported (src_path e) \<and> cooldown_seconds h \<le> now - last_time h (src_path e)
      then queue_event (h\<lparr>last_event_time := (last_event_time h)(src_path e \<mapsto> now)\<rparr>)
             Modify (src_path e)
      else h)"
  by (simp add: on_modified_def should_process_def)

text \<open>
  Claim C5.  A move of a supported file should forward one delete event for the source
  path whatever the cooldown state of that path.  \<open>on_moved\<close> guards the delete with
  \<open>_should_process\<close>, so a source path that forwarded an event less than a cooldown ago
  loses its delete: after a create of \<open>/m/a.mp3\<close> at time 100, the move of \<open>/m/a.mp3\<close> to
  \<open>/m/b.mp3\<close> at time 101 (cooldown 2) enqueues only the create of the destination, where
  \<open>on_deleted\<close> in the same state enqueues the delete.
\<close>

theorem moved_delete_suppressed_by_cooldown:
  "queue (on_moved (on_created (MultimodalEventHandler 1 2) 100 (file_ev ''/m/a.mp3''))
            101 101 (move_ev ''/m/a.mp3'' ''/m/b.mp3''))
   = [\<lparr>ev_action = Create, ev_folder_id = 1, ev_path = ''/m/a.mp3''\<rparr>,
      \<lparr>ev_action = Create, ev_folder_id = 1, ev_path = ''/m/b.mp3''\<rparr>]
   \<and> queue (on_deleted (on_created (MultimodalEventHandler 1 2) 100 (file_ev ''/m/a.mp3''))
            (file_ev ''/m/a.mp3''))
   = [\<lparr>ev_action = Create, ev_folder_id = 1, ev_path = ''/m/a.mp3''\<rparr>,
      \<lparr>ev_action = Delete, ev_folder_id = 1, ev_path = ''/m/a.mp3''\<rparr>]"
  by (simp add: handler_defs supported_a_mp3 supported_b_mp3)

text \<open>
  Claim C6.  An event for a path outside the supported extensions should enqueue nothing.
  \<open>on_deleted\<close> does not look at the extension: the deletion of \<open>/m/notes.txt\<close> is
  enqueued, where \<open>on_created\<close> and \<open>on_moved\<close> enqueue nothing for that path.
\<close>

theorem deleted_unsupported_enqueued:
  "\<not> is_supported ''/m/notes.txt''
   \<and> queue (on_deleted (MultimodalEventHandler 1 2) (file_ev ''/m/notes.txt''))
       = [\<lparr>ev_action = Delete, ev_folder_id = 1, ev_path = ''/m/notes.txt''\<rparr>]
   \<and> queue (on_created (MultimodalEventHandler 1 2) 100 (file_ev ''/m/notes.txt'')) = []
   \<and> queue (on_moved (MultimodalEventHandler 1 2) 100 100
              (move_ev ''/m/notes.txt'' ''/m/notes.bak'')) = []"
proof -
  have "\<not> is_supported ''/m/notes.bak''" by (simp add: detect_defs)
  then show ?thesis by (simp add: handler_defs unsupported_notes_txt)
qed

text \<open>
  Claim C7 as stated requires the elapsed time to exceed the cooldown.  With cooldown 2, a
  create forwarded at time 10 and a second create at time 12, the elapsed time is 2, which
  does not exceed the cooldown, and the second create is forwarded.
\<close>

theorem cooldown_boundary_counterexample:
  "last_time (on_created (MultimodalEventHandler 1 2) 10 (file_ev ''/m/a.mp3'')) ''/m/a.mp3'' = 10
   \<and> \<not> ((12::real) - 10 > cooldown_seconds (on_created (MultimodalEventHandler 1 2) 10 (file_ev ''/m/a.mp3'')))
   \<and> queue (on_created (on_created (MultimodalEventHandler 1 2) 10 (file_ev ''/m/a.mp3''))
             12 (file_ev ''/m/a.mp3''))
     = [\<lparr>ev_action = Create, ev_folder_id = 1, ev_path = ''/m/a.mp3''\<rparr>,
        \<lparr>ev_action = Create, ev_folder_id = 1, ev_path = ''/m/a.mp3''\<rparr>]"
  by (simp add: handler_defs supported_a_mp3)

text \<open>
  Claim C7, amended.  For a file event, \<open>on_created\<close> and \<open>on_modified\<close> forward exactly
  when the path is supported and the time elapsed since the recorded time of the path (0
  when the path has no entry) is at least the cooldown; the entry of the path is set to the
  clock reading exactly then, and otherwise the handler is unchanged.  Hence a create that
  is forwarded at \<open>t1\<close>, followed by a create less than a cooldown later, forwards one event,
  and a further create at least a cooldown after \<open>t1\<close> forwards a second one.
\<close>

theorem debounce_create_modify:
  assumes nd: "\<not> is_directory e"
  shows "on_created h now e =
           (if is_supported (src_path e) \<and> cooldown_seconds h \<le> now - last_time h (src_path e)
            then queue_event (h\<lparr>last_event_time := (last_event_time h)(src_path e \<mapsto> now)\<rparr>)
                   Create (src_path e)
            else h)
       \<and> on_modified h now e =
           (if is_supported (src_path e) \<and> cooldown_seconds h \<le> now - last_time h (src_path e)
            then queue_event (h\<lparr>last_event_time := (last_event_time h)(src_path e \<mapsto> now)\<rparr>)
                   Modify (src_path e)
            else h)
       \<and> (is_supported (src_path e) \<and> cooldown_seconds h \<le> t1 - last_time h (src_path e)
            \<and> t2 - t1 < cooldown_seconds h \<and> cooldown_seconds h \<le> t3 - t1
          \<longrightarrow> queue (on_created (on_created h t1 e) t2 e)
                = queue h @ [\<lparr>ev_action = Create, ev_folder_id = h_folder_id h,
                               ev_path = src_path e\<rparr>]
            \<and> queue (on_created (on_created (on_created h t1 e) t2 e) t3 e)
                = queue h @ [\<lparr>ev_action = Create, ev_folder_id = h_folder_id h,
                               ev_path = src_path e\<rparr>,
                             \<lparr>ev_action = Create, ev_folder_id = h_folder_id h,
                               ev_path = src_path e\<rparr>])"
  using nd by (simp add: on_created_eq on_modified_eq queue_event_def last_time_def)

theorem debounce_create_modify_witness:
  "queue (on_created (on_created (MultimodalEventHandler 1 2) 10 (file_ev ''/m/a.mp3'')) 11
            (file_ev ''/m/a.mp3''))
     = [\<lparr>ev_action = Create, ev_folder_id = 1, ev_path = ''/m/a.mp3''\<rparr>]
   \<and> queue (on_created (on_created (on_created (MultimodalEventHandler 1 2) 10
              (file_ev ''/m/a.mp3'')) 11 (file_ev ''/m/a.mp3'')) 13 (file_ev ''/m/a.mp3''))
     = [\<lparr>ev_action = Create, ev_folder_id = 1, ev_path = ''/m/a.mp3''\<rparr>,
        \<lparr>ev_action = Create, ev_folder_id = 1, ev_path = ''/m/a.mp3''\<rparr>]"
  using debounce_create_modify [of "file_ev ''/m/a.mp3''" "MultimodalEventHandler 1 2" 0 10 11 13]
  by (simp add: file_ev_def MultimodalEventHandler_def last_time_def supported_a_mp3)


section \<open>The deletion tracker\<close>

lemma find_map_cong:
  "(\<And>x. P (g x) = P x) \<Longrightarrow> find P (map g xs) = map_option g (find P xs)"
  by (induction xs) auto

lemma find_key_of_find:
  "distinct (map k xs) \<Longrightarrow> find P xs = Some x \<Longrightarrow> find (\<lambda>y. k y = k x) xs = Some x"
proof (induction xs)
  case Nil
  then show ?case by simp
next
  case (Cons a xs)
  show ?case
  proof (cases "P a")
    case True
    with Cons.prems show ?thesis by simp
  next
    case False
    with Cons.prems have fx: "find P xs = Some x" and d: "distinct (map k xs)"
      and na: "k a \<notin> k ` set xs" by auto
    from fx have "x \<in> set xs" by (auto simp: find_Some_iff)
    with na have "k a \<noteq> k x" by auto
    with Cons.IH [OF d fx] show ?thesis by simp
  qed
qed

lemma file_get_of_path:
  "pk_ok d \<Longrightarrow> file_get_by_path d p = Some f \<Longrightarrow> file_get d (file_id f) = Some f"
  unfolding pk_ok_def file_get_def file_get_by_path_def
  by (rule find_key_of_find)




lemma deletion_warning_flags [simp]:
  "deletion_warning (f\<lparr>is_deleted := a, deletion_notified := b\<rparr>) = deletion_warning f"
  "deletion_warning (f\<lparr>deletion_notified := b\<rparr>) = deletion_warning f"
  by (simp_all add: deletion_warning_def)







section \<open>The similarity scan\<close>

lemmas ex_defs = ex_env_def ex_db_two_def ex_db_deleted_def ex_db_empty_def ex_file_def
  ex_emb_def ex_folder_def ex_subfolder_def ex_entry_def ex_load_def ex_save_def
  ex_request_def serialize_array_def deserialize_array_def

lemmas scan_defs = search_similar_def candidate_rows_def dot_def sort_desc_def py_take_def

lemma candidate_rows_empty_ids:
  "candidate_rows d m (Some []) ex = candidate_rows d m None ex"
  by (simp add: candidate_rows_def)

lemma candidate_rows_ids:
  "ids \<noteq> [] \<Longrightarrow> candidate_rows d m (Some ids) ex
     = filter (\<lambda>(f, e). file_folder_id f \<in> set ids) (candidate_rows d m None ex)"
  by (auto simp: candidate_rows_def intro!: filter_cong)

lemma score_rows_subset:
  "score_rows E q t rows = Inr rs \<Longrightarrow> fst ` set rs \<subseteq> fst ` set rows"
proof (induction rows arbitrary: rs)
  case Nil
  then show ?case by simp
next
  case (Cons r rows)
  obtain f e where r: "r = (f, e)" by (cases r)
  show ?case
  proof (cases "vector e")
    case None
    with Cons r show ?thesis by auto
  next
    case (Some blob)
    with Cons.prems r obtain sim rest where
      "score_rows E q t rows = Inr rest"
      "rs = (if t \<le> sim then (f, sim) # rest else rest)"
      by (auto split: sum.splits)
    with Cons.IH [of rest] r show ?thesis by (auto split: if_splits)
  qed
qed

lemma score_rows_threshold:
  "score_rows E q t rows = Inr rs \<Longrightarrow> \<forall>x\<in>set rs. t \<le> snd x"
proof (induction rows arbitrary: rs)
  case Nil
  then show ?case by simp
next
  case (Cons r rows)
  obtain f e where r: "r = (f, e)" by (cases r)
  show ?case
  proof (cases "vector e")
    case None
    with Cons r show ?thesis by auto
  next
    case (Some blob)
    with Cons.prems r obtain sim rest where
      "score_rows E q t rows = Inr rest"
      "rs = (if t \<le> sim then (f, sim) # rest else rest)"
      by (auto split: sum.splits)
    with Cons.IH [of rest] show ?thesis by (auto split: if_splits)
  qed
qed

lemma set_py_take: "set (py_take k xs) \<subseteq> set xs"
  by (auto simp: py_take_def dest: in_set_takeD)

lemma set_sort_desc [simp]: "set (sort_desc key xs) = set xs"
  by (simp add: sort_desc_def)

lemma search_similar_files:
  assumes "search_similar E d q m ids k t ex = Inr rs"
  shows "fst ` set rs \<subseteq> fst ` set (candidate_rows d m ids ex)"
proof -
  from assms obtain sf where sf: "score_rows E q t (candidate_rows d m ids ex) = Inr sf"
    and rs: "rs = py_take k (sort_desc snd sf)"
    by (auto simp: search_similar_def split: sum.splits)
  have "set rs \<subseteq> set sf" using set_py_take [of k "sort_desc snd sf"] by (simp add: rs)
  with score_rows_subset [OF sf] show ?thesis by blast
qed

text \<open>
  Claim C10.  An empty folder-id list gives the same candidate rows, and the same result
  of the similarity scan, as no folder filter.  A non-empty list keeps exactly the
  candidate rows whose file belongs to a listed folder, so every result file does.
\<close>

theorem empty_folder_filter_is_no_filter:
  "candidate_rows d m (Some []) ex = candidate_rows d m None ex
   \<and> search_similar E d q m (Some []) k t ex = search_similar E d q m None k t ex
   \<and> (ids \<noteq> [] \<longrightarrow>
        candidate_rows d m (Some ids) ex
          = filter (\<lambda>(f, e). file_folder_id f \<in> set ids) (candidate_rows d m None ex)
      \<and> (\<forall>rs. search_similar E d q m (Some ids) k t ex = Inr rs
            \<longrightarrow> (\<forall>x\<in>set rs. file_folder_id (fst x) \<in> set ids)))"
proof -
  have a: "candidate_rows d m (Some []) ex = candidate_rows d m None ex"
    by (rule candidate_rows_empty_ids)
  have b: "search_similar E d q m (Some []) k t ex = search_similar E d q m None k t ex"
    by (simp add: search_similar_def a)
  have c: "\<forall>x\<in>set rs. file_folder_id (fst x) \<in> set ids"
    if ne: "ids \<noteq> []" and r: "search_similar E d q m (Some ids) k t ex = Inr rs" for rs
  proof
    fix x assume "x \<in> set rs"
    then have "fst x \<in> fst ` set (candidate_rows d m (Some ids) ex)"
      using search_similar_files [OF r] by blast
    then show "file_folder_id (fst x) \<in> set ids"
      by (auto simp: candidate_rows_ids [OF ne])
  qed
  show ?thesis using a b c candidate_rows_ids by blast
qed

theorem empty_folder_filter_is_no_filter_witness:
  "search_similar ex_env ex_db_two [1, 0] (Some ''audio'') (Some [2]) 10 0 True
     = Inr [(ex_file 2 2 ''/m/sub/c.mp3'' False, 1)]
   \<and> file_folder_id (ex_file 2 2 ''/m/sub/c.mp3'' False) \<in> set [2::nat]
   \<and> search_similar ex_env ex_db_two [1, 0] (Some ''audio'') (Some []) 10 0 True
     = Inr [(ex_file 1 1 ''/m/a.mp3'' False, 1), (ex_file 2 2 ''/m/sub/c.mp3'' False, 1)]"
proof -
  have r: "search_similar ex_env ex_db_two [1, 0] (Some ''audio'') (Some [2]) 10 0 True
             = Inr [(ex_file 2 2 ''/m/sub/c.mp3'' False, 1)]"
    by (simp add: scan_defs ex_defs)
  have n: "search_similar ex_env ex_db_two [1, 0] (Some ''audio'') None 10 0 True
             = Inr [(ex_file 1 1 ''/m/a.mp3'' False, 1), (ex_file 2 2 ''/m/sub/c.mp3'' False, 1)]"
    by (simp add: scan_defs ex_defs)
  have ne: "[2::nat] \<noteq> []" by simp
  from empty_folder_filter_is_no_filter
         [of ex_db_two "Some ''audio''" True ex_env "[1, 0]" 10 0 "[2]"]
  show ?thesis using r n ne by simp
qed


section \<open>The upsert\<close>

lemma validate_file_exists:
  "fst (validate_file E p) \<Longrightarrow> \<exists>en. map_of (fs E) p = Some en \<and> is_supported p"
  by (auto simp: validate_file_def split: option.splits if_splits)

lemma upsert_existing:
  assumes "get_by_file d fid \<noteq> []"
  shows "upsert_embedding E now d fid v m =
           (update_indexed_at
              (d\<lparr>embeddings :=
                   map (\<lambda>emb. if emb_file_id emb = fid
                               then emb\<lparr>vector := Some (serialize_array E v)\<rparr>
                               else emb) (embeddings d)\<rparr>) fid now, None)"
  using assms by (simp add: upsert_embedding_def)

lemma svc_index_file_known:
  assumes "fst (validate_file E (si_path info))"
    and "file_get_by_path d (si_path info) = Some f"
    and "generate_embedding_for_file E (si_path info) (si_modality info) = Inr (Some v)"
  shows "svc_index_file E now d info = upsert_embedding E now d (file_id f) v (si_modality info)"
  using assms by (simp add: svc_index_file_def Let_def)

lemma map_keys_overwrite:
  "map (\<lambda>e. (embedding_id e, emb_file_id e, emb_modality e, embedding_type e))
     (map (\<lambda>emb. if emb_file_id emb = i then emb\<lparr>vector := b\<rparr> else emb) xs)
   = map (\<lambda>e. (embedding_id e, emb_file_id e, emb_modality e, embedding_type e)) xs"
  by (induction xs) simp_all

lemma filter_overwrite:
  "filter (\<lambda>e. emb_file_id e = i)
     (map (\<lambda>emb. if emb_file_id emb = i then emb\<lparr>vector := b\<rparr> else emb) xs)
   = map (\<lambda>emb. emb\<lparr>vector := b\<rparr>) (filter (\<lambda>e. emb_file_id e = i) xs)"
  by (induction xs) simp_all

text \<open>
  The event-driven procedure has no working update branch: for a file that already has
  embeddings it raises \<open>AttributeError\<close> and leaves the database as it was.
\<close>

lemma worker_update_raises:
  assumes "fst (validate_file E path)"
    and "file_get_by_path d path = Some f"
    and "get_by_file d (file_id f) \<noteq> []"
    and "generate_embedding_for_file E path (detect path) = Inr (Some v)"
  shows "worker_index_file E d path = (d, Some AttributeError)"
proof -
  from validate_file_exists [OF assms(1)] obtain en where
    "map_of (fs E) path = Some en" by blast
  then show ?thesis
    using assms by (simp add: worker_index_file_def get_file_info_def Let_def)
qed

text \<open>
  The scan path, for comparison.  When \<open>IndexingService._index_file\<close> is given a valid file
  that is known by its path and already has embeddings, and the provider returns a vector,
  it returns normally; the embeddings table keeps its rows (same ids, files, modalities and
  types); every row of the file carries the serialized vector, rows of other files are
  untouched, and the file's \<open>indexed_at\<close> is the clock reading.
\<close>

lemma scan_upsert_overwrites:
  assumes valid: "fst (validate_file E (si_path info))"
    and known: "file_get_by_path d (si_path info) = Some f"
    and pk: "distinct (map file_id (files d))"
    and has: "get_by_file d (file_id f) \<noteq> []"
    and prov: "generate_embedding_for_file E (si_path info) (si_modality info) = Inr (Some v)"
  shows
    "(let r = svc_index_file E now d info; d' = fst r
      in snd r = None
       \<and> map (\<lambda>e. (embedding_id e, emb_file_id e, emb_modality e, embedding_type e))
             (embeddings d')
         = map (\<lambda>e. (embedding_id e, emb_file_id e, emb_modality e, embedding_type e))
             (embeddings d)
       \<and> get_by_file d' (file_id f) \<noteq> []
       \<and> (\<forall>e\<in>set (get_by_file d' (file_id f)). vector e = Some (serialize_array E v))
       \<and> (\<forall>e\<in>set (embeddings d'). emb_file_id e \<noteq> file_id f \<longrightarrow> e \<in> set (embeddings d))
       \<and> file_get d' (file_id f) = Some (f\<lparr>indexed_at := Some now\<rparr>))"
proof -
  let ?g = "\<lambda>emb. if emb_file_id emb = file_id f
                  then emb\<lparr>vector := Some (serialize_array E v)\<rparr> else emb"
  let ?u = "\<lambda>x. if file_id x = file_id f then x\<lparr>indexed_at := Some now\<rparr> else x"
  have r: "svc_index_file E now d info =
             (update_indexed_at (d\<lparr>embeddings := map ?g (embeddings d)\<rparr>) (file_id f) now, None)"
    using svc_index_file_known [OF valid known prov] upsert_existing [OF has] by simp
  have emb: "embeddings (fst (svc_index_file E now d info)) = map ?g (embeddings d)"
    and fls: "files (fst (svc_index_file E now d info)) = map ?u (files d)"
    by (simp_all add: r update_indexed_at_def)
  have g: "file_get d (file_id f) = Some f"
    using pk known by (intro file_get_of_path) (simp_all add: pk_ok_def)
  have c1: "map (\<lambda>e. (embedding_id e, emb_file_id e, emb_modality e, embedding_type e))
              (map ?g (embeddings d))
            = map (\<lambda>e. (embedding_id e, emb_file_id e, emb_modality e, embedding_type e))
              (embeddings d)"
    by (rule map_keys_overwrite)
  have c2: "filter (\<lambda>e. emb_file_id e = file_id f) (map ?g (embeddings d))
            = map (\<lambda>emb. emb\<lparr>vector := Some (serialize_array E v)\<rparr>)
                (filter (\<lambda>e. emb_file_id e = file_id f) (embeddings d))"
    by (rule filter_overwrite)
  have c3: "get_by_file (fst (svc_index_file E now d info)) (file_id f) \<noteq> []"
    using has by (simp add: get_by_file_def emb c2)
  have c4: "\<forall>e\<in>set (get_by_file (fst (svc_index_file E now d info)) (file_id f)).
              vector e = Some (serialize_array E v)"
    by (auto simp: get_by_file_def emb c2)
  have c5: "\<forall>e\<in>set (embeddings (fst (svc_index_file E now d info))).
              emb_file_id e \<noteq> file_id f \<longrightarrow> e \<in> set (embeddings d)"
    by (auto simp: emb split: if_splits)
  have c6: "file_get (fst (svc_index_file E now d info)) (file_id f)
            = Some (f\<lparr>indexed_at := Some now\<rparr>)"
    using g by (simp add: file_get_def fls find_map_cong)
  have c0: "snd (svc_index_file E now d info) = None" by (simp add: r)
  have c1': "map (\<lambda>e. (embedding_id e, emb_file_id e, emb_modality e, embedding_type e))
               (embeddings (fst (svc_index_file E now d info)))
             = map (\<lambda>e. (embedding_id e, emb_file_id e, emb_modality e, embedding_type e))
               (embeddings d)"
    by (simp only: emb c1)
  show ?thesis
    unfolding Let_def by (intro conjI c0 c1' c3 c4 c5 c6)
qed

lemma ex_valid_a: "fst (validate_file ex_env ''/m/a.mp3'')"
  by (simp add: validate_file_def ex_env_def ex_entry_def supported_a_mp3)

lemma ex_provider_a:
  "generate_embedding_for_file ex_env ''/m/a.mp3'' (Some ''audio'') = Inr (Some [1, 0])"
  by (simp add: generate_embedding_for_file_def generate_audio_embedding_def
        path_exists_def ex_env_def)

lemma ex_stale_known:
  "file_get_by_path ex_db_stale ''/m/a.mp3'' = Some (ex_file 1 1 ''/m/a.mp3'' False)"
  by (simp add: file_get_by_path_def ex_db_stale_def ex_file_def)

lemma ex_stale_has: "get_by_file ex_db_stale (file_id (ex_file 1 1 ''/m/a.mp3'' False)) \<noteq> []"
  by (simp add: get_by_file_def ex_db_stale_def ex_file_def ex_emb_def)

text \<open>
  Claim C9.  An upsert for a file that already has an embedding should overwrite the
  stored payload and set the indexed timestamp, from either entry point.  The file
  \<open>/m/a.mp3\<close> is indexed with the payload \<open>01\<close> and the provider now returns the vector
  \<open>[1, 0]\<close>, whose payload is \<open>10\<close>.  A modify event for the file makes the event-driven
  procedure raise \<open>AttributeError\<close>; the event is dropped and the database is as it was,
  stale payload and no timestamp.  The scan path, on the same file, rewrites the payload
  and sets the timestamp.
\<close>

theorem event_upsert_raises:
  "generate_embedding_for_file ex_env ''/m/a.mp3'' (detect ''/m/a.mp3'') = Inr (Some [1, 0])
   \<and> serialize_array ex_env [1, 0] = ''10''
   \<and> map vector (embeddings ex_db_stale) = [Some ''01'', Some ''10'']
   \<and> worker_index_file ex_env ex_db_stale ''/m/a.mp3'' = (ex_db_stale, Some AttributeError)
   \<and> process_event ex_env ex_db_stale
         \<lparr>ev_action = Modify, ev_folder_id = 1, ev_path = ''/m/a.mp3''\<rparr> = ex_db_stale
   \<and> map vector (embeddings (fst (svc_index_file ex_env 7 ex_db_stale
         \<lparr>si_path = ''/m/a.mp3'', si_filename = ''a.mp3'', si_modality = Some ''audio''\<rparr>)))
       = [Some ''10'', Some ''10'']
   \<and> map indexed_at (files (fst (svc_index_file ex_env 7 ex_db_stale
         \<lparr>si_path = ''/m/a.mp3'', si_filename = ''a.mp3'', si_modality = Some ''audio''\<rparr>)))
       = [Some 7, None]"
proof -
  let ?info = "\<lparr>si_path = ''/m/a.mp3'', si_filename = ''a.mp3'', si_modality = Some ''audio''\<rparr>"
  have dt: "detect ''/m/a.mp3'' = Some ''audio''" by (simp add: detect_defs)
  have p: "generate_embedding_for_file ex_env ''/m/a.mp3'' (detect ''/m/a.mp3'')
             = Inr (Some [1, 0])"
    by (simp add: dt ex_provider_a)
  have sv: "serialize_array ex_env [1, 0] = ''10''"
    by (simp add: serialize_array_def ex_env_def ex_save_def)
  have st: "map vector (embeddings ex_db_stale) = [Some ''01'', Some ''10'']"
    by (simp add: ex_db_stale_def ex_emb_def)
  have w: "worker_index_file ex_env ex_db_stale ''/m/a.mp3'' = (ex_db_stale, Some AttributeError)"
    by (rule worker_update_raises [OF ex_valid_a ex_stale_known ex_stale_has p])
  have e: "process_event ex_env ex_db_stale
             \<lparr>ev_action = Modify, ev_folder_id = 1, ev_path = ''/m/a.mp3''\<rparr> = ex_db_stale"
    by (simp add: process_event_def w)
  have u: "svc_index_file ex_env 7 ex_db_stale ?info
          = upsert_embedding ex_env 7 ex_db_stale (file_id (ex_file 1 1 ''/m/a.mp3'' False))
              [1, 0] (si_modality ?info)"
    by (rule svc_index_file_known) (simp_all add: ex_valid_a ex_stale_known ex_provider_a)
  have s: "svc_index_file ex_env 7 ex_db_stale ?info
          = (update_indexed_at
              (ex_db_stale\<lparr>embeddings :=
                   map (\<lambda>emb. if emb_file_id emb = file_id (ex_file 1 1 ''/m/a.mp3'' False)
                               then emb\<lparr>vector := Some (serialize_array ex_env [1, 0])\<rparr>
                               else emb) (embeddings ex_db_stale)\<rparr>)
              (file_id (ex_file 1 1 ''/m/a.mp3'' False)) 7, None)"
    unfolding u by (rule upsert_existing [OF ex_stale_has])
  have v: "map vector (embeddings (fst (svc_index_file ex_env 7 ex_db_stale ?info)))
             = [Some ''10'', Some ''10'']"
    unfolding s sv by (simp add: update_indexed_at_def ex_db_stale_def ex_emb_def ex_file_def)
  have i: "map indexed_at (files (fst (svc_index_file ex_env 7 ex_db_stale ?info)))
             = [Some 7, None]"
    unfolding s sv by (simp add: update_indexed_at_def ex_db_stale_def ex_emb_def ex_file_def)
  show ?thesis by (intro conjI p sv st w e v i)
qed

section \<open>Resolving and creating the file record\<close>

lemma worker_skips_unknown:
  "file_get_by_path d path = None \<Longrightarrow> worker_index_file E d path = (d, None)"
  by (auto simp: worker_index_file_def get_file_info_def Let_def
        dest!: validate_file_exists split: option.splits)

lemma resolve_folder_None:
  "resolve_folder d path = None
   \<longleftrightarrow> (\<forall>fo\<in>set (folders d). is_active fo \<longrightarrow> \<not> startswith path (folder_path fo))"
  by (auto simp: resolve_folder_def folder_list_all_def find_None_iff)

lemma resolve_folder_Some:
  "resolve_folder d path = Some fid
   \<longleftrightarrow> (\<exists>i<length (folders d).
          is_active (folders d ! i) \<and> startswith path (folder_path (folders d ! i))
        \<and> folder_id (folders d ! i) = fid
        \<and> (\<forall>j<i. \<not> (is_active (folders d ! j)
                     \<and> startswith path (folder_path (folders d ! j)))))"
proof -
  let ?P = "\<lambda>fo. is_active fo \<and> startswith path (folder_path fo)"
  have eq: "find (\<lambda>fo. startswith path (folder_path fo)) (filter is_active xs) = find ?P xs"
    for xs by (induction xs) auto
  show ?thesis
    unfolding resolve_folder_def folder_list_all_def
    by (simp add: eq find_Some_iff) blast
qed


lemma lt_next_id: "x \<in> set ids \<Longrightarrow> x < next_id ids"
proof -
  have "x \<in> set ids \<Longrightarrow> x \<le> fold max ids a" and "a \<le> fold max ids a" for a
  proof (induction ids arbitrary: a)
    case Nil
    { case 1 then show ?case by simp }
    { case 2 show ?case by simp }
  next
    case (Cons y ys)
    { case 1
      then show ?case using Cons(1) [of "max y a"] Cons(2) [of "max y a"] by auto }
    { case 2
      show ?case using Cons(2) [of "max y a"] by simp }
  qed
  then show "x \<in> set ids \<Longrightarrow> x < next_id ids" by (simp add: next_id_def less_Suc_eq_le)
qed

lemma bump_fresh_id:
  "map (\<lambda>f. if file_id f = next_id (map file_id xs) then g f else f) xs = xs"
proof -
  have "\<forall>f\<in>set xs. file_id f \<noteq> next_id (map file_id xs)"
    using lt_next_id [of _ "map file_id xs"] by fastforce
  then show ?thesis by (simp add: map_idI)
qed

lemma upsert_files:
  "files (fst (upsert_embedding E now d fid v m)) = files d
   \<or> files (fst (upsert_embedding E now d fid v m))
       = map (\<lambda>f. if file_id f = fid then f\<lparr>indexed_at := Some now\<rparr> else f) (files d)"
  by (simp add: upsert_embedding_def update_indexed_at_def embedding_create_def
        split: option.splits)

lemma svc_index_file_unknown:
  assumes "fst (validate_file E (si_path info))"
    and "file_get_by_path d (si_path info) = None"
    and "resolve_folder d (si_path info) = Some fid"
    and "detect (si_path info) = Some m"
    and "map_of (fs E) (si_path info) = Some en"
  shows "svc_index_file E now d info =
     (let new = new_file E d fid (si_path info) m (st_size en);
          d1 = d\<lparr>files := files d @ [new]\<rparr>
      in case generate_embedding_for_file E (si_path info) (si_modality info) of
           Inl x \<Rightarrow> (d1, Some x)
         | Inr None \<Rightarrow> (d1, None)
         | Inr (Some v) \<Rightarrow> upsert_embedding E now d1 (file_id new) v (si_modality info))"
  using assms
  by (simp add: svc_index_file_def Let_def get_file_info_def file_create_def new_file_def
        get_mime_type_def)

lemma svc_index_file_creates:
  assumes valid: "fst (validate_file E (si_path info))"
    and unknown: "file_get_by_path d (si_path info) = None"
    and rf: "resolve_folder d (si_path info) = Some fid"
  shows "\<exists>new. files (fst (svc_index_file E now d info)) = files d @ [new]
           \<and> file_id new = next_id (map file_id (files d))
           \<and> file_folder_id new = fid
           \<and> file_path new = si_path info
           \<and> filename new = path_name (si_path info)
           \<and> Some (file_modality new) = detect (si_path info)
           \<and> file_size new = map_option st_size (map_of (fs E) (si_path info))
           \<and> mime_type new = guess_type E (si_path info)
           \<and> \<not> is_deleted new"
proof -
  from validate_file_exists [OF valid] obtain en m where
    en: "map_of (fs E) (si_path info) = Some en" and m: "detect (si_path info) = Some m"
    by (auto simp: is_supported_def)
  define new where "new = new_file E d fid (si_path info) m (st_size en)"
  define d1 where "d1 = d\<lparr>files := files d @ [new]\<rparr>"
  define r where "r = svc_index_file E now d info"
  have nid: "file_id new = next_id (map file_id (files d))"
    by (simp add: new_def new_file_def)
  have r: "r = (case generate_embedding_for_file E (si_path info) (si_modality info) of
                  Inl x \<Rightarrow> (d1, Some x)
                | Inr None \<Rightarrow> (d1, None)
                | Inr (Some v) \<Rightarrow> upsert_embedding E now d1 (file_id new) v (si_modality info))"
    unfolding r_def d1_def new_def
    using svc_index_file_unknown [OF valid unknown rf m en, of now] by (simp add: Let_def)
  have bump: "map (\<lambda>f. if file_id f = file_id new then f\<lparr>indexed_at := Some now\<rparr> else f)
                (files d1) = files d @ [new\<lparr>indexed_at := Some now\<rparr>]"
    by (simp add: d1_def nid bump_fresh_id)
  have "files (fst r) = files d @ [new] \<or> files (fst r) = files d @ [new\<lparr>indexed_at := Some now\<rparr>]"
  proof (cases "generate_embedding_for_file E (si_path info) (si_modality info)")
    case (Inl x)
    then show ?thesis by (simp add: r d1_def)
  next
    case (Inr o1)
    show ?thesis
    proof (cases o1)
      case None
      with Inr show ?thesis by (simp add: r d1_def)
    next
      case (Some v)
      with Inr have "r = upsert_embedding E now d1 (file_id new) v (si_modality info)"
        by (simp add: r)
      with upsert_files [of E now d1 "file_id new" v "si_modality info"] bump
      show ?thesis by (auto simp: d1_def)
    qed
  qed
  then show ?thesis
    unfolding r_def [symmetric]
    by (elim disjE) (auto simp: new_def new_file_def en m)
qed

lemma svc_index_file_no_folder:
  assumes "file_get_by_path d (si_path info) = None"
    and "resolve_folder d (si_path info) = None"
  shows "svc_index_file E now d info = (d, None)"
  using assms by (simp add: svc_index_file_def Let_def)

text \<open>
  Claim C4 as stated has the event-driven entry point create the \<open>File\<close> record.  For the
  valid supported file \<open>/m/a.mp3\<close>, with no \<open>File\<close> row and the active folder \<open>/m\<close> a
  prefix of its path, the create event leaves the database as it was.
\<close>

theorem event_path_creates_no_file_counterexample:
  "fst (validate_file ex_env ''/m/a.mp3'')
   \<and> file_get_by_path ex_db_empty ''/m/a.mp3'' = None
   \<and> resolve_folder ex_db_empty ''/m/a.mp3'' = Some 1
   \<and> process_event ex_env ex_db_empty
         \<lparr>ev_action = Create, ev_folder_id = 1, ev_path = ''/m/a.mp3''\<rparr> = ex_db_empty"
proof -
  have n: "file_get_by_path ex_db_empty ''/m/a.mp3'' = None"
    by (simp add: file_get_by_path_def ex_defs)
  have v: "fst (validate_file ex_env ''/m/a.mp3'')"
    by (simp add: validate_file_def ex_defs supported_a_mp3)
  have r: "resolve_folder ex_db_empty ''/m/a.mp3'' = Some 1"
    by (simp add: resolve_folder_def folder_list_all_def startswith_def ex_defs)
  show ?thesis
    using n v r by (simp add: process_event_def worker_skips_unknown)
qed

text \<open>
  Claim C4, amended.  The two entry points do not share the procedure.  The event-driven
  \<open>IndexingWorker._index_file\<close> skips every path that has no \<open>File\<close> row.  The scan-job
  \<open>IndexingService._index_file\<close>, for a valid file with no \<open>File\<close> row, skips the file
  exactly when no active folder's path is a prefix of the file's path, and otherwise
  appends one \<open>File\<close> row owned by the first active folder (in table order) whose path is a
  prefix, with the detected modality, the size and the mime type.
\<close>

theorem file_record_resolution:
  "(file_get_by_path d path = None \<longrightarrow> worker_index_file E d path = (d, None))
   \<and> (fst (validate_file E (si_path info)) \<and> file_get_by_path d (si_path info) = None \<longrightarrow>
        (resolve_folder d (si_path info) = None
           \<longleftrightarrow> (\<forall>fo\<in>set (folders d).
                  is_active fo \<longrightarrow> \<not> startswith (si_path info) (folder_path fo)))
      \<and> (resolve_folder d (si_path info) = None \<longrightarrow> svc_index_file E now d info = (d, None))
      \<and> (\<forall>fid. resolve_folder d (si_path info) = Some fid \<longrightarrow>
            (\<exists>i<length (folders d).
                is_active (folders d ! i)
              \<and> startswith (si_path info) (folder_path (folders d ! i))
              \<and> folder_id (folders d ! i) = fid
              \<and> (\<forall>j<i. \<not> (is_active (folders d ! j)
                           \<and> startswith (si_path info) (folder_path (folders d ! j)))))
          \<and> (\<exists>new. files (fst (svc_index_file E now d info)) = files d @ [new]
                \<and> file_id new = next_id (map file_id (files d))
                \<and> file_folder_id new = fid
                \<and> file_path new = si_path info
                \<and> filename new = path_name (si_path info)
                \<and> Some (file_modality new) = detect (si_path info)
                \<and> file_size new = map_option st_size (map_of (fs E) (si_path info))
                \<and> mime_type new = guess_type E (si_path info)
                \<and> \<not> is_deleted new)))"
proof (intro conjI impI allI)
  assume "file_get_by_path d path = None"
  then show "worker_index_file E d path = (d, None)" by (rule worker_skips_unknown)
next
  show "resolve_folder d (si_path info) = None
          \<longleftrightarrow> (\<forall>fo\<in>set (folders d).
                 is_active fo \<longrightarrow> \<not> startswith (si_path info) (folder_path fo))"
    by (rule resolve_folder_None)
next
  assume "fst (validate_file E (si_path info)) \<and> file_get_by_path d (si_path info) = None"
    and "resolve_folder d (si_path info) = None"
  then show "svc_index_file E now d info = (d, None)"
    by (simp add: svc_index_file_no_folder)
next
  fix fid
  assume "resolve_folder d (si_path info) = Some fid"
  then show "\<exists>i<length (folders d).
                is_active (folders d ! i)
              \<and> startswith (si_path info) (folder_path (folders d ! i))
              \<and> folder_id (folders d ! i) = fid
              \<and> (\<forall>j<i. \<not> (is_active (folders d ! j)
                           \<and> startswith (si_path info) (folder_path (folders d ! j))))"
    by (simp only: resolve_folder_Some)
next
  fix fid
  assume a: "fst (validate_file E (si_path info)) \<and> file_get_by_path d (si_path info) = None"
    and rf: "resolve_folder d (si_path info) = Some fid"
  from a have valid: "fst (validate_file E (si_path info))"
    and unknown: "file_get_by_path d (si_path info) = None" by simp_all
  show "\<exists>new. files (fst (svc_index_file E now d info)) = files d @ [new]
                \<and> file_id new = next_id (map file_id (files d))
                \<and> file_folder_id new = fid
                \<and> file_path new = si_path info
                \<and> filename new = path_name (si_path info)
                \<and> Some (file_modality new) = detect (si_path info)
                \<and> file_size new = map_option st_size (map_of (fs E) (si_path info))
                \<and> mime_type new = guess_type E (si_path info)
                \<and> \<not> is_deleted new"
    by (rule svc_index_file_creates [OF valid unknown rf])
qed

theorem file_record_resolution_witness:
  "worker_index_file ex_env ex_db_empty ''/m/a.mp3'' = (ex_db_empty, None)
   \<and> resolve_folder ex_db_empty ''/m/a.mp3'' = Some 1
   \<and> files (fst (svc_index_file ex_env 5 ex_db_empty
        \<lparr>si_path = ''/m/a.mp3'', si_filename = ''a.mp3'', si_modality = Some ''audio''\<rparr>))
       = [(ex_file 1 1 ''/m/a.mp3'' False)]"
proof -
  let ?info = "\<lparr>si_path = ''/m/a.mp3'', si_filename = ''a.mp3'', si_modality = Some ''audio''\<rparr>"
  have n: "file_get_by_path ex_db_empty ''/m/a.mp3'' = None"
    by (simp add: file_get_by_path_def ex_defs)
  have v: "fst (validate_file ex_env ''/m/a.mp3'')"
    by (simp add: validate_file_def ex_defs supported_a_mp3)
  have r: "resolve_folder ex_db_empty ''/m/a.mp3'' = Some 1"
    by (simp add: resolve_folder_def folder_list_all_def startswith_def ex_defs)
  have dt: "detect ''/m/a.mp3'' = Some ''audio''" by (simp add: detect_defs)
  have en: "map_of (fs ex_env) ''/m/a.mp3'' = Some ex_entry" by (simp add: ex_env_def)
  have pr: "generate_embedding_for_file ex_env ''/m/a.mp3'' (Some ''audio'') = Inr (Some [1, 0])"
    by (simp add: generate_embedding_for_file_def generate_audio_embedding_def
          path_exists_def en) (simp add: ex_env_def)
  have "svc_index_file ex_env 5 ex_db_empty ?info
          = upsert_embedding ex_env 5
              (ex_db_empty\<lparr>files := files ex_db_empty
                 @ [new_file ex_env ex_db_empty 1 ''/m/a.mp3'' ''audio'' (st_size ex_entry)]\<rparr>)
              (file_id (new_file ex_env ex_db_empty 1 ''/m/a.mp3'' ''audio'' (st_size ex_entry)))
              [1, 0] (Some ''audio'')"
    using svc_index_file_unknown [of ex_env ?info ex_db_empty 1 "''audio''" ex_entry 5]
      v n r dt en pr
    by (simp add: Let_def)
  then have f: "files (fst (svc_index_file ex_env 5 ex_db_empty ?info))
             = [(ex_file 1 1 ''/m/a.mp3'' False)]"
    by (simp add: upsert_embedding_def get_by_file_def embedding_create_def new_file_def
          next_id_def path_name_def ex_defs)
  from file_record_resolution [of ex_db_empty "''/m/a.mp3''" ex_env ?info 5]
  show ?thesis using n v r f by simp
qed


section \<open>Scan jobs and their counters\<close>

lemma ex_collect: "collect_files ex_env [ex_folder] =
  [\<lparr>si_path = ''/m/a.mp3'', si_filename = ''a.mp3'', si_modality = Some ''audio''\<rparr>,
   \<lparr>si_path = ''/m/b.mp3'', si_filename = ''b.mp3'', si_modality = Some ''audio''\<rparr>,
   \<lparr>si_path = ''/m/c.mp3'', si_filename = ''c.mp3'', si_modality = Some ''audio''\<rparr>]"
  by (simp add: collect_files_def scan_folder_def rglob_def startswith_def endswith_def
       detect_defs ex_defs)

lemma provider_Some_modality:
  "generate_embedding_for_file E p m = Inr (Some v) \<Longrightarrow> m \<noteq> None"
  by (auto simp: generate_embedding_for_file_def split: if_splits)

lemma provider_never_raises:
  "never_raises E \<Longrightarrow> \<exists>r. generate_embedding_for_file E p m = Inr r"
  by (simp add: never_raises_def generate_embedding_for_file_def
        generate_audio_embedding_def generate_video_embedding_def)

lemma upsert_no_exn: "m \<noteq> None \<Longrightarrow> snd (upsert_embedding E now d fid v m) = None"
  by (auto simp: upsert_embedding_def)

lemma jobs_upsert: "jobs (fst (upsert_embedding E now d fid v m)) = jobs d"
  by (simp add: upsert_embedding_def update_indexed_at_def embedding_create_def
        split: option.splits)

lemma svc_index_file_cases:
  "svc_index_file E now d info = (d, None)
   \<or> (\<exists>d1 fid. jobs d1 = jobs d \<and> embeddings d1 = embeddings d
        \<and> svc_index_file E now d info =
            (case generate_embedding_for_file E (si_path info) (si_modality info) of
               Inl x \<Rightarrow> (d1, Some x)
             | Inr None \<Rightarrow> (d1, None)
             | Inr (Some v) \<Rightarrow> upsert_embedding E now d1 fid v (si_modality info)))"
proof (cases "fst (validate_file E (si_path info))")
  case False
  then show ?thesis by (simp add: svc_index_file_def Let_def)
next
  case valid: True
  from validate_file_exists [OF valid] obtain en m where
    en: "map_of (fs E) (si_path info) = Some en" and m: "detect (si_path info) = Some m"
    by (auto simp: is_supported_def)
  show ?thesis
  proof (cases "file_get_by_path d (si_path info)")
    case (Some f)
    have eq: "svc_index_file E now d info =
            (case generate_embedding_for_file E (si_path info) (si_modality info) of
               Inl x \<Rightarrow> (d, Some x)
             | Inr None \<Rightarrow> (d, None)
             | Inr (Some v) \<Rightarrow> upsert_embedding E now d (file_id f) v (si_modality info))"
      using valid Some by (simp add: svc_index_file_def Let_def)
    show ?thesis
      by (rule disjI2, rule exI [of _ d], rule exI [of _ "file_id f"]) (simp add: eq)
  next
    case None
    show ?thesis
    proof (cases "resolve_folder d (si_path info)")
      case rn: None
      then show ?thesis using svc_index_file_no_folder [OF None rn] by simp
    next
      case (Some fid)
      let ?new = "new_file E d fid (si_path info) m (st_size en)"
      let ?d1 = "d\<lparr>files := files d @ [?new]\<rparr>"
      have eq: "svc_index_file E now d info =
              (case generate_embedding_for_file E (si_path info) (si_modality info) of
                 Inl x \<Rightarrow> (?d1, Some x)
               | Inr None \<Rightarrow> (?d1, None)
               | Inr (Some v) \<Rightarrow> upsert_embedding E now ?d1 (file_id ?new) v (si_modality info))"
        using svc_index_file_unknown [OF valid None Some m en, of now] by (simp add: Let_def)
      show ?thesis
        by (rule disjI2, rule exI [of _ ?d1], rule exI [of _ "file_id ?new"]) (simp add: eq)
    qed
  qed
qed

lemma svc_no_exn:
  assumes "never_raises E"
  shows "snd (svc_index_file E now d info) = None"
proof -
  from provider_never_raises [OF assms] obtain r where
    r: "generate_embedding_for_file E (si_path info) (si_modality info) = Inr r" by blast
  show ?thesis
    using svc_index_file_cases [of E now d info]
  proof (elim disjE exE conjE)
    assume "svc_index_file E now d info = (d, None)"
    then show ?thesis by simp
  next
    fix d1 fid
    assume e: "svc_index_file E now d info =
            (case generate_embedding_for_file E (si_path info) (si_modality info) of
               Inl x \<Rightarrow> (d1, Some x)
             | Inr None \<Rightarrow> (d1, None)
             | Inr (Some v) \<Rightarrow> upsert_embedding E now d1 fid v (si_modality info))"
    show ?thesis
    proof (cases r)
      case None
      with e r show ?thesis by simp
    next
      case (Some v)
      with r have "si_modality info \<noteq> None" by (auto dest: provider_Some_modality)
      with e r Some show ?thesis by (simp add: upsert_no_exn)
    qed
  qed
qed

lemma svc_jobs: "jobs (fst (svc_index_file E now d info)) = jobs d"
  using svc_index_file_cases [of E now d info]
proof (elim disjE exE conjE)
  assume "svc_index_file E now d info = (d, None)"
  then show ?thesis by simp
next
  fix d1 fid
  assume j: "jobs d1 = jobs d"
    and e: "svc_index_file E now d info =
            (case generate_embedding_for_file E (si_path info) (si_modality info) of
               Inl x \<Rightarrow> (d1, Some x)
             | Inr None \<Rightarrow> (d1, None)
             | Inr (Some v) \<Rightarrow> upsert_embedding E now d1 fid v (si_modality info))"
  show ?thesis
    by (simp add: e j jobs_upsert split: sum.splits option.splits)
qed

lemma svc_skip_on_None:
  assumes "generate_embedding_for_file E (si_path info) (si_modality info) = Inr None"
  shows "snd (svc_index_file E now d info) = None
       \<and> embeddings (fst (svc_index_file E now d info)) = embeddings d"
  using svc_index_file_cases [of E now d info]
proof (elim disjE exE conjE)
  assume "svc_index_file E now d info = (d, None)"
  then show ?thesis by simp
next
  fix d1 fid
  assume j: "embeddings d1 = embeddings d"
    and e: "svc_index_file E now d info =
            (case generate_embedding_for_file E (si_path info) (si_modality info) of
               Inl x \<Rightarrow> (d1, Some x)
             | Inr None \<Rightarrow> (d1, None)
             | Inr (Some v) \<Rightarrow> upsert_embedding E now d1 fid v (si_modality info))"
  show ?thesis by (simp add: e j assms)
qed

lemma bump_bump: "bump jid n (bump jid m j) = bump jid (m + n) j"
  by (simp add: bump_def)

lemma bump_0: "bump jid 0 j = j"
  by (simp add: bump_def)

lemma jobs_process_files:
  assumes "never_raises E"
  shows "jobs (process_files E now jid d infos) = map (bump jid (int (length infos))) (jobs d)"
proof (induction infos arbitrary: d)
  case Nil
  show ?case by (simp add: bump_0 [abs_def])
next
  case (Cons info rest)
  obtain d1 where s: "svc_index_file E now d info = (d1, None)"
    using svc_no_exn [OF assms, of now d info] by (cases "svc_index_file E now d info") auto
  have j1: "jobs d1 = jobs d" using svc_jobs [of E now d info] by (simp add: s)
  have inc: "jobs (increment_progress d1 jid 1 0) = map (bump jid 1) (jobs d)"
    by (simp add: increment_progress_def upd_job_def j1 bump_def [abs_def])
  show ?case
    by (simp add: s Cons.IH inc bump_bump comp_def add.commute)
qed


lemma job_get_upd:
  assumes "job_get d i = Some j" and "\<And>x. job_id (g x) = job_id x"
  shows "job_get (upd_job d i g) i = Some (g j)"
proof -
  have "find (\<lambda>x. job_id x = i) (map (\<lambda>x. if job_id x = i then g x else x) (jobs d))
          = map_option (\<lambda>x. if job_id x = i then g x else x) (find (\<lambda>x. job_id x = i) (jobs d))"
    by (rule find_map_cong) (simp add: assms(2))
  moreover have "job_id j = i"
    using assms(1) by (auto simp: job_get_def find_Some_iff)
  ultimately show ?thesis using assms(1) by (simp add: job_get_def upd_job_def)
qed

lemma job_get_cong: "jobs d = jobs d' \<Longrightarrow> job_get d i = job_get d' i"
  by (simp add: job_get_def)

lemma folders_upd_job [simp]: "folders (upd_job d i g) = folders d"
  by (simp add: upd_job_def)

lemma target_folders_cong: "folders d = folders d' \<Longrightarrow> target_folders d fid = target_folders d' fid"
  unfolding target_folders_def folder_list_all_def folder_get_def
  by (cases fid) simp_all

lemma jobs_fold_last_indexed:
  "jobs (fold (\<lambda>f acc. folder_update_last_indexed acc (folder_id f) now) fldrs d) = jobs d"
  by (induction fldrs arbitrary: d) (simp_all add: folder_update_last_indexed_def)

lemma job_get_process_files:
  assumes "never_raises E" and "job_get d jid = Some j"
  shows "job_get (process_files E now jid d infos) jid
           = Some (j\<lparr>processed_files := processed_files j + int (length infos)\<rparr>)"
proof -
  have id: "job_id j = jid" using assms(2) by (auto simp: job_get_def find_Some_iff)
  have "job_get (process_files E now jid d infos) jid
          = job_get (upd_job d jid (\<lambda>x. x\<lparr>processed_files := processed_files x + int (length infos)\<rparr>)) jid"
    by (rule job_get_cong)
       (simp add: jobs_process_files [OF assms(1)] upd_job_def bump_def [abs_def])
  then show ?thesis using job_get_upd [OF assms(2)] by simp
qed

lemma job_get_running:
  assumes "job_get d jid = Some j" and "started_at j = None"
  shows "job_get (update_status d jid ''running'' None now) jid
           = Some (j\<lparr>status := ''running'', started_at := Some now\<rparr>)"
  unfolding update_status_def using job_get_upd [OF assms(1)] assms(2)
  by (simp add: Let_def)

lemma job_get_completed:
  assumes "job_get d jid = Some j"
  shows "job_get (update_status d jid ''completed'' None now) jid
           = Some (j\<lparr>status := ''completed'', completed_at := Some now\<rparr>)"
  unfolding update_status_def using job_get_upd [OF assms(1)]
  by (simp add: Let_def)

lemma job_get_total:
  assumes "job_get d jid = Some j"
  shows "job_get (set_total_files d jid n) jid = Some (j\<lparr>total_files := n\<rparr>)"
  unfolding set_total_files_def using job_get_upd [OF assms(1)] by simp

lemma perform_indexing_job:
  assumes nr: "never_raises E" and j: "job_get d jid = Some j" and st: "started_at j = None"
  shows "job_get (perform_indexing E now d jid fid) jid =
     Some (if target_folders d fid = []
           then j\<lparr>status := ''completed'', started_at := Some now, completed_at := Some now\<rparr>
           else j\<lparr>status := ''completed'', started_at := Some now,
                  total_files := int (length (collect_files E (target_folders d fid))),
                  processed_files := processed_files j
                     + int (length (collect_files E (target_folders d fid))),
                  completed_at := Some now\<rparr>)"
proof -
  define d1 where "d1 = update_status d jid ''running'' None now"
  define fldrs where "fldrs = target_folders d fid"
  define all_files where "all_files = collect_files E fldrs"
  define d2 where "d2 = set_total_files d1 jid (int (length all_files))"
  define d3 where "d3 = process_files E now jid d2 all_files"
  define d4 where "d4 = fold (\<lambda>f acc. folder_update_last_indexed acc (folder_id f) now) fldrs d3"
  have tf: "target_folders d1 fid = fldrs"
    unfolding fldrs_def d1_def by (rule target_folders_cong) (simp add: update_status_def)
  have p: "perform_indexing E now d jid fid =
             (if fldrs = [] then update_status d1 jid ''completed'' None now
              else update_status d4 jid ''completed'' None now)"
    by (simp add: perform_indexing_def Let_def d1_def [symmetric] tf d4_def d3_def d2_def
          all_files_def)
  have g1: "job_get d1 jid = Some (j\<lparr>status := ''running'', started_at := Some now\<rparr>)"
    unfolding d1_def by (rule job_get_running [OF j st])
  have g2: "job_get d2 jid = Some (j\<lparr>status := ''running'', started_at := Some now,
                                     total_files := int (length all_files)\<rparr>)"
    unfolding d2_def using job_get_total [OF g1] by simp
  have g3: "job_get d3 jid = Some (j\<lparr>status := ''running'', started_at := Some now,
                                     total_files := int (length all_files),
                                     processed_files := processed_files j + int (length all_files)\<rparr>)"
    unfolding d3_def using job_get_process_files [OF nr g2] by simp
  have g4: "job_get d4 jid = job_get d3 jid"
    unfolding d4_def by (rule job_get_cong) (rule jobs_fold_last_indexed)
  show ?thesis
  proof (cases "fldrs = []")
    case True
    then show ?thesis
      using job_get_completed [OF g1] by (simp add: p fldrs_def [symmetric])
  next
    case False
    then show ?thesis
      using job_get_completed [OF g3 [folded g4]]
      by (simp add: p fldrs_def [symmetric] all_files_def)
  qed
qed

lemma find_app:
  "find P (xs @ ys) = (case find P xs of None \<Rightarrow> find P ys | Some x \<Rightarrow> Some x)"
  by (induction xs) simp_all

lemma job_get_created:
  "job_get (fst (job_create d jt fid)) (job_id (snd (job_create d jt fid)))
     = Some (snd (job_create d jt fid))"
proof -
  have "\<forall>x\<in>set (jobs d). job_id x \<noteq> next_id (map job_id (jobs d))"
    using lt_next_id [of _ "map job_id (jobs d)"] by fastforce
  then have "find (\<lambda>x. job_id x = next_id (map job_id (jobs d))) (jobs d) = None"
    by (simp add: find_None_iff)
  then show ?thesis
    by (simp add: job_get_def job_create_def Let_def find_app)
qed

lemma index_folder_job:
  assumes nr: "never_raises E"
  shows "job_get (snd (index_folder E now d fid mode)) (fst (index_folder E now d fid mode))
    = Some \<lparr>job_id = next_id (map job_id (jobs d)),
             job_type = (if mode = ''full'' then ''full_scan'' else ''incremental''),
             job_folder_id = fid, status = ''completed'',
             total_files = (if target_folders d fid = [] then 0
                            else int (length (collect_files E (target_folders d fid)))),
             processed_files = (if target_folders d fid = [] then 0
                                else int (length (collect_files E (target_folders d fid)))),
             failed_files = 0, error_message = None,
             started_at = Some now, completed_at = Some now\<rparr>"
proof -
  let ?jt = "if mode = ''full'' then ''full_scan'' else ''incremental''"
  define d1 where "d1 = fst (job_create d ?jt fid)"
  define j where "j = snd (job_create d ?jt fid)"
  have j: "j = \<lparr>job_id = next_id (map job_id (jobs d)), job_type = ?jt, job_folder_id = fid,
                 status = ''pending'', total_files = 0, processed_files = 0, failed_files = 0,
                 error_message = None, started_at = None, completed_at = None\<rparr>"
    by (simp add: j_def job_create_def Let_def)
  have g: "job_get d1 (job_id j) = Some j"
    unfolding d1_def j_def by (rule job_get_created)
  have tf: "target_folders d1 fid = target_folders d fid"
    by (rule target_folders_cong) (simp add: d1_def job_create_def Let_def)
  have st: "started_at j = None" by (simp add: j)
  have i: "index_folder E now d fid mode = (job_id j, perform_indexing E now d1 (job_id j) fid)"
    by (simp add: index_folder_def d1_def j_def split_beta Let_def)
  show ?thesis
    using perform_indexing_job [OF nr g st, of now fid]
    by (simp add: i tf) (simp add: j)
qed

lemma never_raises_ex: "never_raises ex_env"
  by (simp add: never_raises_def ex_env_def)

lemma ex_targets: "target_folders ex_db_empty (Some 1) = [ex_folder]"
  by (simp add: target_folders_def folder_get_def ex_db_empty_def ex_folder_def)

lemma ex_targets_all: "target_folders ex_db_empty None = [ex_folder]"
  by (simp add: target_folders_def folder_list_all_def ex_db_empty_def ex_folder_def)

lemma ex_provider_b:
  "generate_embedding_for_file ex_env ''/m/b.mp3'' (Some ''audio'') = Inr None"
  by (simp add: generate_embedding_for_file_def generate_audio_embedding_def ex_env_def)

text \<open>
  Claim C1 as stated ends the job over three files, one of them without a vector from the
  provider, with two processed files and the skip counted as a failure.  On the folder
  \<open>/m\<close> with the files \<open>a.mp3\<close>, \<open>b.mp3\<close>, \<open>c.mp3\<close>, where the provider returns \<open>None\<close> for
  \<open>b.mp3\<close>, the job ends completed with three files in total, three processed and no failed
  file.
\<close>

theorem provider_skip_counter_counterexample:
  "generate_embedding_for_file ex_env ''/m/b.mp3'' (Some ''audio'') = Inr None
   \<and> map si_path (collect_files ex_env (target_folders ex_db_empty (Some 1)))
       = [''/m/a.mp3'', ''/m/b.mp3'', ''/m/c.mp3'']
   \<and> map_option (\<lambda>j. (status j, total_files j, processed_files j, failed_files j))
         (job_get (snd (index_folder ex_env 5 ex_db_empty (Some 1) ''full''))
                  (fst (index_folder ex_env 5 ex_db_empty (Some 1) ''full'')))
       = Some (''completed'', 3, 3, 0)"
proof -
  have c: "map si_path (collect_files ex_env (target_folders ex_db_empty (Some 1)))
             = [''/m/a.mp3'', ''/m/b.mp3'', ''/m/c.mp3'']"
    unfolding ex_targets ex_collect by simp
  from index_folder_job [OF never_raises_ex, of 5 ex_db_empty "Some 1" "''full''"]
  have j: "map_option (\<lambda>j. (status j, total_files j, processed_files j, failed_files j))
         (job_get (snd (index_folder ex_env 5 ex_db_empty (Some 1) ''full''))
                  (fst (index_folder ex_env 5 ex_db_empty (Some 1) ''full'')))
       = Some (''completed'', 3, 3, 0)"
    unfolding ex_targets ex_collect by simp
  show ?thesis by (intro conjI ex_provider_b c j)
qed

text \<open>
  Claim C1, amended.  When no provider call raises, a scan job ends completed with
  \<open>processed_files\<close> equal to \<open>total_files\<close>, the number of collected files, and
  \<open>failed_files\<close> zero, however many provider calls returned no vector.  For a single file,
  a provider result \<open>None\<close> makes \<open>_index_file\<close> return normally with the embeddings table
  unchanged: the file is skipped and counted as processed, not as failed.
\<close>

theorem provider_skip_is_processed_not_failed:
  "(never_raises E \<longrightarrow>
      job_get (snd (index_folder E now d fid mode)) (fst (index_folder E now d fid mode))
      = Some \<lparr>job_id = next_id (map job_id (jobs d)),
               job_type = (if mode = ''full'' then ''full_scan'' else ''incremental''),
               job_folder_id = fid, status = ''completed'',
               total_files = (if target_folders d fid = [] then 0
                              else int (length (collect_files E (target_folders d fid)))),
               processed_files = (if target_folders d fid = [] then 0
                                  else int (length (collect_files E (target_folders d fid)))),
               failed_files = 0, error_message = None,
               started_at = Some now, completed_at = Some now\<rparr>)
   \<and> (generate_embedding_for_file E (si_path info) (si_modality info) = Inr None \<longrightarrow>
        snd (svc_index_file E now d info) = None
      \<and> embeddings (fst (svc_index_file E now d info)) = embeddings d)"
  using index_folder_job [of E now d fid mode] svc_skip_on_None [of E info now d]
  by blast

theorem provider_skip_is_processed_not_failed_witness:
  "never_raises ex_env
   \<and> generate_embedding_for_file ex_env ''/m/b.mp3'' (Some ''audio'') = Inr None
   \<and> job_get (snd (index_folder ex_env 5 ex_db_empty None ''incremental''))
              (fst (index_folder ex_env 5 ex_db_empty None ''incremental''))
      = Some \<lparr>job_id = 1, job_type = ''incremental'', job_folder_id = None,
               status = ''completed'', total_files = 3, processed_files = 3,
               failed_files = 0, error_message = None,
               started_at = Some 5, completed_at = Some 5\<rparr>"
proof -
  have n: "next_id (map job_id (jobs ex_db_empty)) = 1"
    by (simp add: next_id_def ex_db_empty_def)
  from provider_skip_is_processed_not_failed
          [of ex_env 5 ex_db_empty None "''incremental''"
              "\<lparr>si_path = ''/m/b.mp3'', si_filename = ''b.mp3'', si_modality = Some ''audio''\<rparr>"]
  have "job_get (snd (index_folder ex_env 5 ex_db_empty None ''incremental''))
              (fst (index_folder ex_env 5 ex_db_empty None ''incremental''))
      = Some \<lparr>job_id = 1, job_type = ''incremental'', job_folder_id = None,
               status = ''completed'', total_files = 3, processed_files = 3,
               failed_files = 0, error_message = None,
               started_at = Some 5, completed_at = Some 5\<rparr>"
    unfolding ex_targets_all ex_collect n using never_raises_ex by simp
  then show ?thesis by (intro conjI never_raises_ex ex_provider_b)
qed


section \<open>Search and soft-deleted files\<close>

lemma candidate_rows_not_deleted:
  "(f, e) \<in> set (candidate_rows d m ids True) \<Longrightarrow> \<not> is_deleted f"
  by (simp add: candidate_rows_def)

lemma search_similar_not_deleted:
  assumes "search_similar E d q m ids k t True = Inr rs" and "x \<in> set rs"
  shows "\<not> is_deleted (fst x)"
proof -
  from assms have "fst x \<in> fst ` set (candidate_rows d m ids True)"
    using search_similar_files [OF assms(1)] by blast
  then show ?thesis by (auto dest: candidate_rows_not_deleted)
qed

lemma gather_results_not_deleted:
  "gather_results E d req qes = Inr all \<Longrightarrow> x \<in> set all \<Longrightarrow> \<not> is_deleted (fst x)"
proof (induction qes arbitrary: all)
  case Nil
  then show ?case by simp
next
  case (Cons qe qes)
  obtain m q where qe: "qe = (m, q)" by (cases qe)
  from Cons.prems(1) qe obtain rs rest where
    rs: "search_similar E d q (Some m) (req_folder_ids req) (top_k req) (threshold req) True
           = Inr rs"
    and rest: "gather_results E d req qes = Inr rest"
    and all: "all = map (\<lambda>(f, s). (f, s, m)) rs @ rest"
    by (auto split: sum.splits)
  from Cons.prems(2) all
  have "x \<in> (\<lambda>(f, s). (f, s, m)) ` set rs \<or> x \<in> set rest" by auto
  then show ?case
  proof
    assume "x \<in> (\<lambda>(f, s). (f, s, m)) ` set rs"
    then obtain y where y: "y \<in> set rs" and "x = (\<lambda>(f, s). (f, s, m)) y" by blast
    then have "fst x = fst y" by (simp add: split_beta)
    with search_similar_not_deleted [OF rs y] show ?thesis by simp
  next
    assume "x \<in> set rest"
    with Cons.IH [OF rest] show ?thesis by simp
  qed
qed

lemma set_merge_results: "set (merge_results req all) \<subseteq> set all"
  using set_py_take [of "top_k req" "sort_desc (\<lambda>x. fst (snd x)) all"]
  by (simp add: merge_results_def)

lemma build_results_rows:
  "fst (build_results tracker d rows) = map (\<lambda>(f, s, m). mk_result f s) rows"
  by (induction rows arbitrary: d) (auto simp: split_beta Let_def)

lemma build_results_no_deleted:
  "\<forall>x\<in>set rows. \<not> is_deleted (fst x) \<Longrightarrow>
     build_results tracker d rows = (map (\<lambda>(f, s, m). mk_result f s) rows, [], d)"
  by (induction rows arbitrary: d) (auto simp: split_beta Let_def)

lemma search_Inl:
  "compute_query_embedding E (query req) (query_type req) (target_modalities_of req) = Inl x
   \<Longrightarrow> search E tracker d req = Inl x"
  by (simp add: search_def Let_def)

lemma search_no_query:
  "compute_query_embedding E (query req) (query_type req) (target_modalities_of req) = Inr []
   \<Longrightarrow> search E tracker d req
        = Inr (\<lparr>results = [], total_count = 0, warnings = None\<rparr>, d)"
  by (simp add: search_def Let_def)

lemma search_gather_Inl:
  "compute_query_embedding E (query req) (query_type req) (target_modalities_of req) = Inr qe
   \<Longrightarrow> qe \<noteq> [] \<Longrightarrow> gather_results E d req qe = Inl x
   \<Longrightarrow> search E tracker d req = Inl x"
  by (simp add: search_def Let_def)

lemma search_gather_Inr:
  "compute_query_embedding E (query req) (query_type req) (target_modalities_of req) = Inr qe
   \<Longrightarrow> qe \<noteq> [] \<Longrightarrow> gather_results E d req qe = Inr all
   \<Longrightarrow> search E tracker d req
        = Inr (\<lparr>results = fst (build_results tracker d (merge_results req all)),
                 total_count = length (fst (build_results tracker d (merge_results req all))),
                 warnings =
                   (if fst (snd (build_results tracker d (merge_results req all))) = []
                    then None
                    else Some (fst (snd (build_results tracker d (merge_results req all)))))\<rparr>,
               snd (snd (build_results tracker d (merge_results req all))))"
  by (simp add: search_def Let_def split_beta)

lemma ex_query:
  "compute_query_embedding ex_env (query ex_request) (query_type ex_request)
     (target_modalities_of ex_request) = Inr [(''audio'', [1, 0])]"
  by (simp add: compute_query_embedding_def target_modalities_of_def
        generate_text_embedding_def ex_request_def ex_env_def)

lemma ex_scan_two:
  "search_similar ex_env ex_db_two [1, 0] (Some ''audio'') None 10 0 True
     = Inr [(ex_file 1 1 ''/m/a.mp3'' False, 1), (ex_file 2 2 ''/m/sub/c.mp3'' False, 1)]"
  by (simp add: scan_defs ex_defs)

lemma ex_scan_deleted:
  "search_similar ex_env ex_db_deleted [1, 0] (Some ''audio'') None 10 0 True = Inr []"
  by (simp add: scan_defs ex_defs)

lemma ex_scan_deleted_included:
  "search_similar ex_env ex_db_deleted [1, 0] (Some ''audio'') None 10 0 False
     = Inr [(ex_file 1 1 ''/m/a.mp3'' True, 1)]"
  by (simp add: scan_defs ex_defs)

lemma ex_request_fields:
  "req_folder_ids ex_request = None" "top_k ex_request = 10" "threshold ex_request = 0"
  by (simp_all add: ex_request_def)

lemma ex_not_deleted: "\<not> is_deleted (ex_file i fo p False)"
  by (simp add: ex_file_def)

lemma ex_search_two:
  "search ex_env True ex_db_two ex_request
     = Inr (\<lparr>results = [mk_result (ex_file 1 1 ''/m/a.mp3'' False) 1,
                          mk_result (ex_file 2 2 ''/m/sub/c.mp3'' False) 1],
              total_count = 2, warnings = None\<rparr>, ex_db_two)"
proof -
  have g: "gather_results ex_env ex_db_two ex_request [(''audio'', [1, 0])]
             = Inr [(ex_file 1 1 ''/m/a.mp3'' False, 1, ''audio''),
                    (ex_file 2 2 ''/m/sub/c.mp3'' False, 1, ''audio'')]"
    by (simp add: ex_request_fields ex_scan_two)
  have m: "merge_results ex_request
             [(ex_file 1 1 ''/m/a.mp3'' False, 1, ''audio''),
              (ex_file 2 2 ''/m/sub/c.mp3'' False, 1, ''audio'')]
           = [(ex_file 1 1 ''/m/a.mp3'' False, 1, ''audio''),
              (ex_file 2 2 ''/m/sub/c.mp3'' False, 1, ''audio'')]"
    by (simp add: merge_results_def sort_desc_def py_take_def ex_request_fields)
  have b: "build_results True ex_db_two
             [(ex_file 1 1 ''/m/a.mp3'' False, 1, ''audio''),
              (ex_file 2 2 ''/m/sub/c.mp3'' False, 1, ''audio'')]
           = ([mk_result (ex_file 1 1 ''/m/a.mp3'' False) 1,
               mk_result (ex_file 2 2 ''/m/sub/c.mp3'' False) 1], [], ex_db_two)"
    by (simp add: ex_not_deleted)
  have "[(''audio'', [1::real, 0])] \<noteq> []" by simp
  from search_gather_Inr [OF ex_query this g, of True]
  show ?thesis unfolding m b by simp
qed

lemma ex_search_deleted:
  "search ex_env True ex_db_deleted ex_request
     = Inr (\<lparr>results = [], total_count = 0, warnings = None\<rparr>, ex_db_deleted)"
proof -
  have g: "gather_results ex_env ex_db_deleted ex_request [(''audio'', [1, 0])] = Inr []"
    by (simp add: ex_request_fields ex_scan_deleted)
  have m: "merge_results ex_request [] = []"
    by (simp add: merge_results_def sort_desc_def py_take_def)
  have "[(''audio'', [1::real, 0])] \<noteq> []" by simp
  from search_gather_Inr [OF ex_query this g, of True]
  show ?thesis unfolding m by simp
qed

text \<open>
  Whenever \<open>search\<close> returns, no result is flagged deleted, no warning is collected and the
  database is unchanged: the scan is called with \<open>exclude_deleted=True\<close>, so the branch of
  the response loop that asks the deletion tracker is never taken.  The loop itself turns
  every row it is given into a result, in order.
\<close>

lemma search_never_returns_deleted:
  "(\<forall>resp d'. search E tracker d req = Inr (resp, d') \<longrightarrow>
        (\<forall>r\<in>set (results resp). \<not> sr_is_deleted r \<and> \<not> md_is_deleted (metadata r))
      \<and> warnings resp = None \<and> d' = d)
   \<and> fst (build_results tracker d rows) = map (\<lambda>(f, s, m). mk_result f s) rows"
proof (rule conjI)
  have main: "(\<forall>r\<in>set (results resp). \<not> sr_is_deleted r \<and> \<not> md_is_deleted (metadata r))
      \<and> warnings resp = None \<and> d' = d"
    if s: "search E tracker d req = Inr (resp, d')" for resp d'
  proof (cases "compute_query_embedding E (query req) (query_type req) (target_modalities_of req)")
    case (Inl x)
    with s search_Inl [OF Inl, of tracker d] show ?thesis by simp
  next
    case (Inr qe)
    show ?thesis
    proof (cases "qe = []")
      case True
      with s Inr search_no_query [of E req tracker d] show ?thesis by auto
    next
      case False
      show ?thesis
      proof (cases "gather_results E d req qe")
        case (Inl x)
        with s search_gather_Inl [OF Inr False Inl, of tracker] show ?thesis by simp
      next
        case g: (Inr all)
        have nd: "\<forall>x\<in>set (merge_results req all). \<not> is_deleted (fst x)"
          using gather_results_not_deleted [OF g] set_merge_results [of req all] by blast
        have b: "build_results tracker d (merge_results req all)
                   = (map (\<lambda>(f, s, m). mk_result f s) (merge_results req all), [], d)"
          by (rule build_results_no_deleted [OF nd])
        from s search_gather_Inr [OF Inr False g, of tracker]
        have "resp = \<lparr>results = map (\<lambda>(f, s, m). mk_result f s) (merge_results req all),
                    total_count = length (merge_results req all), warnings = None\<rparr>"
          and "d' = d" by (simp_all add: b)
        with nd show ?thesis by (auto simp: mk_result_def)
      qed
    qed
  qed
  then show "\<forall>resp d'. search E tracker d req = Inr (resp, d') \<longrightarrow>
        (\<forall>r\<in>set (results resp). \<not> sr_is_deleted r \<and> \<not> md_is_deleted (metadata r))
      \<and> warnings resp = None \<and> d' = d"
    by blast
next
  show "fst (build_results tracker d rows) = map (\<lambda>(f, s, m). mk_result f s) rows"
    by (rule build_results_rows)
qed


lemma ex_notify_deleted:
  "notify_if_deleted ex_db_deleted 1
     = (Some (deletion_warning (ex_file 1 1 ''/m/a.mp3'' True)),
        snd (mark_deletion_notified ex_db_deleted 1))"
  by (simp add: notify_if_deleted_def file_get_def ex_db_deleted_def ex_file_def)

text \<open>
  Claim C3.  A result whose file is flagged deleted should stay in the result list,
  flagged, with the tracker's one-shot warning collected into the response.  The file
  \<open>/m/a.mp3\<close> is flagged deleted and its vector scores 1 against the query, above the
  threshold 0 (the scan without the exclusion returns it).  \<open>search\<close> returns no result and
  no warning, and the file stays not notified.  Given that row, the response loop would
  return it flagged, with the warning, and mark the file notified.
\<close>

theorem deleted_result_hidden:
  "is_deleted (ex_file 1 1 ''/m/a.mp3'' True)
   \<and> search_similar ex_env ex_db_deleted [1, 0] (Some ''audio'') None 10 0 False
       = Inr [(ex_file 1 1 ''/m/a.mp3'' True, 1)]
   \<and> search ex_env True ex_db_deleted ex_request
       = Inr (\<lparr>results = [], total_count = 0, warnings = None\<rparr>, ex_db_deleted)
   \<and> build_results True ex_db_deleted [(ex_file 1 1 ''/m/a.mp3'' True, 1, ''audio'')]
       = ([mk_result (ex_file 1 1 ''/m/a.mp3'' True) 1],
          [''Warning: Matching file '' @ [CHR 0x27] @ ''a.mp3'' @ [CHR 0x27]
             @ '' has been deleted from source. The file was originally located at: /m/a.mp3''],
          snd (mark_deletion_notified ex_db_deleted 1))
   \<and> sr_is_deleted (mk_result (ex_file 1 1 ''/m/a.mp3'' True) 1)"
proof -
  have fl: "is_deleted (ex_file i fo q True)" "file_id (ex_file i fo q c) = i" for i fo q c
    by (simp_all add: ex_file_def)
  have w: "deletion_warning (ex_file 1 1 ''/m/a.mp3'' True)
             = ''Warning: Matching file '' @ [CHR 0x27] @ ''a.mp3'' @ [CHR 0x27]
                 @ '' has been deleted from source. The file was originally located at: /m/a.mp3''"
    by (simp add: deletion_warning_def ex_file_def path_name_def)
  have b: "build_results True ex_db_deleted [(ex_file 1 1 ''/m/a.mp3'' True, 1, ''audio'')]
       = ([mk_result (ex_file 1 1 ''/m/a.mp3'' True) 1],
          [deletion_warning (ex_file 1 1 ''/m/a.mp3'' True)],
          snd (mark_deletion_notified ex_db_deleted 1))"
    using ex_notify_deleted by (simp add: fl deletion_warning_def)
  have f: "sr_is_deleted (mk_result (ex_file 1 1 ''/m/a.mp3'' True) 1)"
    by (simp add: mk_result_def fl)
  show ?thesis
    using ex_scan_deleted_included ex_search_deleted b f fl(1) [of 1 1 "''/m/a.mp3''"]
    unfolding w by blast
qed

section \<open>Ranking and merging\<close>

lemma sorted_sort_desc: "sorted_wrt (\<lambda>a b. key a \<ge> key b) (sort_desc key xs)"
proof -
  have "sorted (map (\<lambda>x. - key x) (sort_key (\<lambda>x. - key x) xs))"
    by (rule sorted_sort_key)
  then show ?thesis by (simp add: sort_desc_def sorted_wrt_map)
qed

lemma stable_sort_desc:
  "filter (\<lambda>x. key x = s) (sort_desc key xs) = filter (\<lambda>x. key x = s) xs"
  using sort_key_stable [of "\<lambda>x. - key x" "- s" xs] by (simp add: sort_desc_def)

lemma length_sort_desc [simp]: "length (sort_desc key xs) = length xs"
  by (simp add: sort_desc_def)

lemma py_take_nonneg: "0 \<le> k \<Longrightarrow> py_take k xs = take (nat k) xs"
  by (simp add: py_take_def)

lemma search_similar_threshold:
  assumes "search_similar E d q m ids k t ex = Inr rs"
  shows "\<forall>x\<in>set rs. t \<le> snd x"
proof -
  from assms obtain sf where sf: "score_rows E q t (candidate_rows d m ids ex) = Inr sf"
    and rs: "rs = py_take k (sort_desc snd sf)"
    by (auto simp: search_similar_def split: sum.splits)
  have "set rs \<subseteq> set sf" using set_py_take [of k "sort_desc snd sf"] by (simp add: rs)
  with score_rows_threshold [OF sf] show ?thesis by blast
qed

lemma search_similar_ranked:
  assumes "search_similar E d q m ids k t ex = Inr rs" and "0 \<le> k"
  shows "sorted_wrt (\<lambda>a b. snd a \<ge> snd b) rs \<and> int (length rs) \<le> k"
proof -
  from assms obtain sf where rs: "rs = take (nat k) (sort_desc snd sf)"
    by (auto simp: search_similar_def py_take_nonneg split: sum.splits)
  show ?thesis
    using sorted_sort_desc [of snd sf] assms(2) by (simp add: rs sorted_wrt_take)
qed

lemma gather_results_structure:
  "gather_results E d req qes = Inr all \<Longrightarrow>
     \<exists>per. list_all2 (\<lambda>qe rs. modality_scan E d req qe = Inr rs) qes per
         \<and> all = concat (map2 tag_modality qes per)"
proof (induction qes arbitrary: all)
  case Nil
  then show ?case by simp
next
  case (Cons qe qes)
  obtain m q where qe: "qe = (m, q)" by (cases qe)
  from Cons.prems qe obtain rs rest where
    rs: "modality_scan E d req qe = Inr rs"
    and rest: "gather_results E d req qes = Inr rest"
    and all: "all = tag_modality qe rs @ rest"
    by (auto simp: modality_scan_def tag_modality_def split: sum.splits)
  from Cons.IH [OF rest] obtain per where
    per: "list_all2 (\<lambda>qe rs. modality_scan E d req qe = Inr rs) qes per"
    and r: "rest = concat (map2 tag_modality qes per)" by blast
  have "list_all2 (\<lambda>qe rs. modality_scan E d req qe = Inr rs) (qe # qes) (rs # per)"
    using rs per by simp
  moreover have "all = concat (map2 tag_modality (qe # qes) (rs # per))"
    using all r by simp
  ultimately show ?case by blast
qed

lemma gather_results_threshold:
  "gather_results E d req qes = Inr all \<Longrightarrow> \<forall>x\<in>set all. threshold req \<le> fst (snd x)"
proof (induction qes arbitrary: all)
  case Nil
  then show ?case by simp
next
  case (Cons qe qes)
  obtain m q where qe: "qe = (m, q)" by (cases qe)
  from Cons.prems qe obtain rs rest where
    rs: "search_similar E d q (Some m) (req_folder_ids req) (top_k req) (threshold req) True
           = Inr rs"
    and rest: "gather_results E d req qes = Inr rest"
    and all: "all = map (\<lambda>(f, s). (f, s, m)) rs @ rest"
    by (auto split: sum.splits)
  show ?case
    using search_similar_threshold [OF rs] Cons.IH [OF rest]
    by (auto simp: all)
qed

lemma merge_results_ranked:
  assumes "0 \<le> top_k req"
  shows "merge_results req all = take (nat (top_k req)) (sort_desc (\<lambda>x. fst (snd x)) all)"
    and "sorted_wrt (\<lambda>a b. fst (snd a) \<ge> fst (snd b)) (merge_results req all)"
    and "int (length (merge_results req all)) \<le> top_k req"
  using assms sorted_sort_desc [of "\<lambda>x. fst (snd x)" all]
  by (simp_all add: merge_results_def py_take_nonneg sorted_wrt_take)

lemma similarity_mk_result [simp]: "similarity (mk_result f s) = s"
  by (simp add: mk_result_def)


lemma results_of_rows:
  "(\<forall>r\<in>set (map (\<lambda>(f, s, m). mk_result f s) rows). t \<le> similarity r)
     \<longleftrightarrow> (\<forall>x\<in>set rows. t \<le> fst (snd x))"
  "sorted_wrt (\<lambda>a b. similarity a \<ge> similarity b) (map (\<lambda>(f, s, m). mk_result f s) rows)
     \<longleftrightarrow> sorted_wrt (\<lambda>a b. fst (snd a) \<ge> fst (snd b)) rows"
  by (auto simp: sorted_wrt_map split_beta)

lemma candidate_rows_vector:
  "x \<in> set (candidate_rows d m ids ex) \<Longrightarrow> vector (snd x) \<noteq> None"
  by (auto simp: candidate_rows_def)

lemma score_rows_char:
  assumes "\<forall>x\<in>set rows. vector (snd x) \<noteq> None"
    and "score_rows E q t rows = Inr sf"
  shows "\<exists>scores. list_all2 (scored E q) rows scores
           \<and> sf = filter (\<lambda>x. t \<le> snd x) (zip (map fst rows) scores)"
  using assms
proof (induction rows arbitrary: sf)
  case Nil
  then show ?case by simp
next
  case (Cons r rows)
  obtain f e where r: "r = (f, e)" by (cases r)
  from Cons.prems(1) r obtain blob where blob: "vector e = Some blob" by auto
  from Cons.prems(2) r blob obtain sim rest where
    sim: "dot q (deserialize_array E blob) = Inr sim"
    and rest: "score_rows E q t rows = Inr rest"
    and sf: "sf = (if t \<le> sim then (f, sim) # rest else rest)"
    by (auto split: sum.splits)
  from Cons.prems(1) have "\<forall>x\<in>set rows. vector (snd x) \<noteq> None" by simp
  from Cons.IH [OF this rest] obtain scores where
    a: "list_all2 (scored E q) rows scores"
    and b: "rest = filter (\<lambda>x. t \<le> snd x) (zip (map fst rows) scores)" by blast
  have "list_all2 (scored E q) (r # rows) (sim # scores)"
    using a by (simp add: r scored_def blob sim)
  moreover have "sf = filter (\<lambda>x. t \<le> snd x) (zip (map fst (r # rows)) (sim # scores))"
    by (simp add: sf b r)
  ultimately show ?case by blast
qed

lemma search_similar_char:
  assumes "search_similar E d q m ids k t ex = Inr rs" and "0 \<le> k"
  shows "\<exists>scores. list_all2 (scored E q) (candidate_rows d m ids ex) scores
           \<and> rs = take (nat k) (sort_desc snd
                     (filter (\<lambda>x. t \<le> snd x)
                        (zip (map fst (candidate_rows d m ids ex)) scores)))"
proof -
  from assms obtain sf where sf: "score_rows E q t (candidate_rows d m ids ex) = Inr sf"
    and rs: "rs = take (nat k) (sort_desc snd sf)"
    by (auto simp: search_similar_def py_take_nonneg split: sum.splits)
  have "\<forall>x\<in>set (candidate_rows d m ids ex). vector (snd x) \<noteq> None"
    by (auto dest: candidate_rows_vector)
  from score_rows_char [OF this sf] show ?thesis using rs by blast
qed


lemmas rank_defs = ex_env_rank_def ex_db_rank_def ex_vfile_def ex_vemb_def

lemma ex_query_rank:
  "compute_query_embedding ex_env_rank (query ex_request_rank) (query_type ex_request_rank)
     (target_modalities_of ex_request_rank) = Inr [(''audio'', [1, 1]), (''video'', [1, 1])]"
  by (simp add: compute_query_embedding_def target_modalities_of_def
        generate_text_embedding_def ex_request_rank_def ex_env_rank_def ex_env_def)

lemma ex_request_rank_fields:
  "req_folder_ids ex_request_rank = None" "top_k ex_request_rank = 3"
  "threshold ex_request_rank = 1"
  by (simp_all add: ex_request_rank_def)

lemma ex_scan_rank_audio:
  "search_similar ex_env_rank ex_db_rank [1, 1] (Some ''audio'') None 3 1 True
     = Inr [(ex_file 1 1 ''/m/a.mp3'' False, 2), (ex_file 6 1 ''/m/d.mp3'' False, 1),
            (ex_file 2 1 ''/m/b.mp3'' False, 1)]"
  by (simp add: scan_defs ex_defs rank_defs)

lemma ex_scan_rank_video:
  "search_similar ex_env_rank ex_db_rank [1, 1] (Some ''video'') None 3 1 True
     = Inr [(ex_vfile 5 ''/m/w.mp4'', 2), (ex_vfile 4 ''/m/v.mp4'', 1)]"
  by (simp add: scan_defs ex_defs rank_defs)

lemma ex_search_rank:
  "search ex_env_rank True ex_db_rank ex_request_rank
     = Inr (\<lparr>results = [mk_result (ex_file 1 1 ''/m/a.mp3'' False) 2,
                          mk_result (ex_vfile 5 ''/m/w.mp4'') 2,
                          mk_result (ex_file 6 1 ''/m/d.mp3'' False) 1],
              total_count = 3, warnings = None\<rparr>, ex_db_rank)"
proof -
  let ?all = "[(ex_file 1 1 ''/m/a.mp3'' False, 2, ''audio''),
               (ex_file 6 1 ''/m/d.mp3'' False, 1, ''audio''),
               (ex_file 2 1 ''/m/b.mp3'' False, 1, ''audio''),
               (ex_vfile 5 ''/m/w.mp4'', 2, ''video''),
               (ex_vfile 4 ''/m/v.mp4'', 1, ''video'')]"
  let ?top = "[(ex_file 1 1 ''/m/a.mp3'' False, 2, ''audio''),
               (ex_vfile 5 ''/m/w.mp4'', 2, ''video''),
               (ex_file 6 1 ''/m/d.mp3'' False, 1, ''audio'')]"
  have g: "gather_results ex_env_rank ex_db_rank ex_request_rank
             [(''audio'', [1, 1]), (''video'', [1, 1])] = Inr ?all"
    by (simp add: ex_request_rank_fields ex_scan_rank_audio ex_scan_rank_video)
  have m: "merge_results ex_request_rank ?all = ?top"
    by (simp add: merge_results_def sort_desc_def py_take_def ex_request_rank_fields)
  have nd: "\<forall>x\<in>set ?top. \<not> is_deleted (fst x)"
    by (simp add: ex_file_def ex_vfile_def)
  have b: "build_results True ex_db_rank ?top
             = (map (\<lambda>(f, s, m). mk_result f s) ?top, [], ex_db_rank)"
    by (rule build_results_no_deleted [OF nd])
  have "[(''audio'', [1::real, 1]), (''video'', [1, 1])] \<noteq> []" by simp
  from search_gather_Inr [OF ex_query_rank this g, of True]
  show ?thesis unfolding m b by simp
qed

text \<open>
  Claim C2 as stated has the result list strictly descending by score.  The two files of
  the sample database both score 1 against the query; both are returned, and the first
  score is not greater than the second.
\<close>

theorem ties_not_strictly_descending_counterexample:
  "search ex_env True ex_db_two ex_request
     = Inr (\<lparr>results = [mk_result (ex_file 1 1 ''/m/a.mp3'' False) 1,
                          mk_result (ex_file 2 2 ''/m/sub/c.mp3'' False) 1],
              total_count = 2, warnings = None\<rparr>, ex_db_two)
   \<and> \<not> similarity (mk_result (ex_file 1 1 ''/m/a.mp3'' False) 1)
        > similarity (mk_result (ex_file 2 2 ''/m/sub/c.mp3'' False) 1)"
  by (simp add: ex_search_two)

text \<open>
  Claim C2, amended.  When \<open>search\<close> returns, for a request whose result cap is not
  negative: every result has a score at least the threshold; the scores are in
  non-increasing order (equal scores may be adjacent); there are at most top-k results,
  and the count of the response is their number.  Each modality of the query-embedding
  dictionary contributes the first top-k rows of the stable descending sort of its
  candidate rows that score at least the threshold, every candidate being scored by the
  dot product with its payload.  The result list is the first top-k rows of the stable
  descending sort of the concatenation of these lists, in the order of the dictionary.
  Stable and descending: the sort puts the scores in non-increasing order and keeps the
  rows of any one score in the order they had.
\<close>

theorem search_ranking:
  assumes s: "search E tracker d req = Inr (resp, d')" and k: "0 \<le> top_k req"
  shows "(\<forall>r\<in>set (results resp). threshold req \<le> similarity r)
     \<and> sorted_wrt (\<lambda>a b. similarity a \<ge> similarity b) (results resp)
     \<and> int (length (results resp)) \<le> top_k req
     \<and> total_count resp = length (results resp)
     \<and> (\<exists>qes per.
          compute_query_embedding E (query req) (query_type req) (target_modalities_of req)
            = Inr qes
        \<and> list_all2 (\<lambda>qe rs.
              modality_scan E d req qe = Inr rs
            \<and> (\<exists>scores.
                  list_all2 (scored E (snd qe))
                    (candidate_rows d (Some (fst qe)) (req_folder_ids req) True) scores
                \<and> rs = take (nat (top_k req))
                         (sort_desc snd
                            (filter (\<lambda>x. threshold req \<le> snd x)
                               (zip (map fst (candidate_rows d (Some (fst qe))
                                                (req_folder_ids req) True)) scores))))
            \<and> sorted_wrt (\<lambda>a b. snd a \<ge> snd b) rs
            \<and> int (length rs) \<le> top_k req) qes per
        \<and> results resp
            = map (\<lambda>(f, s, m). mk_result f s)
                (take (nat (top_k req))
                   (sort_desc (\<lambda>x. fst (snd x)) (concat (map2 tag_modality qes per))))
        \<and> (\<forall>v. filter (\<lambda>x. fst (snd x) = v)
                   (sort_desc (\<lambda>x. fst (snd x)) (concat (map2 tag_modality qes per)))
                = filter (\<lambda>x. fst (snd x) = v) (concat (map2 tag_modality qes per))))
     \<and> (\<forall>(key :: file_row \<times> real \<Rightarrow> real) xs v.
          filter (\<lambda>x. key x = v) (sort_desc key xs) = filter (\<lambda>x. key x = v) xs
        \<and> sorted_wrt (\<lambda>a b. key a \<ge> key b) (sort_desc key xs))"
proof -
  have gen: "\<forall>(key :: file_row \<times> real \<Rightarrow> real) xs v.
          filter (\<lambda>x. key x = v) (sort_desc key xs) = filter (\<lambda>x. key x = v) xs
        \<and> sorted_wrt (\<lambda>a b. key a \<ge> key b) (sort_desc key xs)"
    by (simp add: stable_sort_desc sorted_sort_desc)
  let ?strong = "\<lambda>qe rs.
              modality_scan E d req qe = Inr rs
            \<and> (\<exists>scores.
                  list_all2 (scored E (snd qe))
                    (candidate_rows d (Some (fst qe)) (req_folder_ids req) True) scores
                \<and> rs = take (nat (top_k req))
                         (sort_desc snd
                            (filter (\<lambda>x. threshold req \<le> snd x)
                               (zip (map fst (candidate_rows d (Some (fst qe))
                                                (req_folder_ids req) True)) scores))))
            \<and> sorted_wrt (\<lambda>a b. snd a \<ge> snd b) rs
            \<and> int (length rs) \<le> top_k req"
  have main: "(\<forall>r\<in>set (results resp). threshold req \<le> similarity r)
     \<and> sorted_wrt (\<lambda>a b. similarity a \<ge> similarity b) (results resp)
     \<and> int (length (results resp)) \<le> top_k req
     \<and> total_count resp = length (results resp)
     \<and> (\<exists>qes per.
          compute_query_embedding E (query req) (query_type req) (target_modalities_of req)
            = Inr qes
        \<and> list_all2 ?strong qes per
        \<and> results resp
            = map (\<lambda>(f, s, m). mk_result f s)
                (take (nat (top_k req))
                   (sort_desc (\<lambda>x. fst (snd x)) (concat (map2 tag_modality qes per))))
        \<and> (\<forall>v. filter (\<lambda>x. fst (snd x) = v)
                   (sort_desc (\<lambda>x. fst (snd x)) (concat (map2 tag_modality qes per)))
                = filter (\<lambda>x. fst (snd x) = v) (concat (map2 tag_modality qes per))))"
  proof (cases "compute_query_embedding E (query req) (query_type req) (target_modalities_of req)")
    case (Inl x)
    with s search_Inl [OF Inl, of tracker d] show ?thesis by simp
  next
    case (Inr qes)
    show ?thesis
    proof (cases "qes = []")
      case True
      with s Inr search_no_query [of E req tracker d]
      have r: "results resp = []" and tc: "total_count resp = 0" by auto
      have "\<exists>per. list_all2 ?strong [] per
          \<and> results resp
              = map (\<lambda>(f, s, m). mk_result f s)
                  (take (nat (top_k req))
                     (sort_desc (\<lambda>x. fst (snd x)) (concat (map2 tag_modality [] per))))
          \<and> (\<forall>v. filter (\<lambda>x. fst (snd x) = v)
                     (sort_desc (\<lambda>x. fst (snd x)) (concat (map2 tag_modality [] per)))
                  = filter (\<lambda>x. fst (snd x) = v) (concat (map2 tag_modality [] per)))"
        by (rule exI [of _ "[]"]) (simp add: r sort_desc_def)
      with Inr True r tc k show ?thesis by simp
    next
      case False
      show ?thesis
      proof (cases "gather_results E d req qes")
        case (Inl x)
        with s search_gather_Inl [OF Inr False Inl, of tracker] show ?thesis by simp
      next
        case g: (Inr all)
        from s search_gather_Inr [OF Inr False g, of tracker]
        have r: "results resp = map (\<lambda>(f, s, m). mk_result f s) (merge_results req all)"
          and tc: "total_count resp = length (results resp)"
          by (auto simp: build_results_rows)
        have th: "\<forall>x\<in>set (merge_results req all). threshold req \<le> fst (snd x)"
          using gather_results_threshold [OF g] set_merge_results [of req all] by blast
        from gather_results_structure [OF g] obtain per where
          per: "list_all2 (\<lambda>qe rs. modality_scan E d req qe = Inr rs) qes per"
          and all: "all = concat (map2 tag_modality qes per)" by blast
        have per': "list_all2 ?strong qes per"
          using per
        proof (rule list_all2_mono)
          fix qe rs
          assume m: "modality_scan E d req qe = Inr rs"
          then have ss: "search_similar E d (snd qe) (Some (fst qe)) (req_folder_ids req)
                           (top_k req) (threshold req) True = Inr rs"
            by (simp add: modality_scan_def)
          show "?strong qe rs"
            using m search_similar_char [OF ss k] search_similar_ranked [OF ss k] by blast
        qed
        have c1: "\<forall>r\<in>set (results resp). threshold req \<le> similarity r"
          unfolding r results_of_rows by (rule th)
        have c2: "sorted_wrt (\<lambda>a b. similarity a \<ge> similarity b) (results resp)"
          unfolding r results_of_rows by (rule merge_results_ranked(2) [OF k])
        have c3: "int (length (results resp)) \<le> top_k req"
          using merge_results_ranked(3) [OF k, of all] by (simp add: r)
        have c4: "results resp
              = map (\<lambda>(f, s, m). mk_result f s)
                  (take (nat (top_k req))
                     (sort_desc (\<lambda>x. fst (snd x)) (concat (map2 tag_modality qes per))))"
          using merge_results_ranked(1) [OF k, of all] by (simp add: r all)
        have c5: "\<forall>v. filter (\<lambda>x. fst (snd x) = v)
                     (sort_desc (\<lambda>x. fst (snd x)) (concat (map2 tag_modality qes per)))
                  = filter (\<lambda>x. fst (snd x) = v) (concat (map2 tag_modality qes per))"
          by (simp add: stable_sort_desc)
        show ?thesis
          using Inr per' c1 c2 c3 c4 c5 tc by blast
      qed
    qed
  qed
  show ?thesis using main gen by blast
qed


theorem search_ranking_witness:
  "search ex_env_rank True ex_db_rank ex_request_rank
     = Inr (\<lparr>results = [mk_result (ex_file 1 1 ''/m/a.mp3'' False) 2,
                          mk_result (ex_vfile 5 ''/m/w.mp4'') 2,
                          mk_result (ex_file 6 1 ''/m/d.mp3'' False) 1],
              total_count = 3, warnings = None\<rparr>, ex_db_rank)
   \<and> 0 \<le> top_k ex_request_rank
   \<and> threshold ex_request_rank \<le> similarity (mk_result (ex_file 6 1 ''/m/d.mp3'' False) 1)
   \<and> similarity (mk_result (ex_vfile 5 ''/m/w.mp4'') 2)
        \<ge> similarity (mk_result (ex_file 6 1 ''/m/d.mp3'' False) 1)
   \<and> int (length [mk_result (ex_file 1 1 ''/m/a.mp3'' False) 2,
                   mk_result (ex_vfile 5 ''/m/w.mp4'') 2,
                   mk_result (ex_file 6 1 ''/m/d.mp3'' False) 1]) \<le> top_k ex_request_rank"
proof -
  have k: "0 \<le> top_k ex_request_rank" by (simp add: ex_request_rank_fields)
  from search_ranking [OF ex_search_rank k] show ?thesis using k ex_search_rank by simp
qed

end
